theory Spec2Isabelle
  imports
    Complex_Main
    "HOL-Library.AList"
    "HOL-Library.Char_ord"
    "HOL-Library.List_Lexorder"
    "HOL-Library.Sublist"
begin

section \<open>Python strings and number formatting\<close>

text \<open>
  Python integers are \<open>int\<close>, Python strings are \<open>string\<close>. A Python float is
  modelled by the rational number it denotes (a finite float has an exact rational
  value); infinities and NaN are not modelled.
\<close>

definition digit_char :: "nat \<Rightarrow> char" where
  "digit_char d = ''0123456789'' ! d"

text \<open>\<^verbatim>\<open>str(n)\<close> for a natural number: its decimal digits, most significant first.\<close>

fun str_nat :: "nat \<Rightarrow> string" where
  "str_nat n = (if n < 10 then [digit_char n] else str_nat (n div 10) @ [digit_char (n mod 10)])"

declare str_nat.simps [simp del]

text \<open>\<^verbatim>\<open>str(i)\<close> for an integer: a minus sign in front of the digits of a negative one.\<close>

definition str_int :: "int \<Rightarrow> string" where
  "str_int i = (if i < 0 then ''-'' @ str_nat (nat (- i)) else str_nat (nat i))"

text \<open>
  \<^verbatim>\<open>s.zfill(width)\<close>: the string itself when it is already \<open>width\<close> long, else zeros
  on the left, after a leading sign character if there is one.
\<close>

definition zfill :: "nat \<Rightarrow> string \<Rightarrow> string" where
  "zfill width s =
     (if width \<le> length s then s
      else case s of
             [] \<Rightarrow> replicate width (CHR ''0'')
           | c # rest \<Rightarrow>
               if c = CHR ''+'' \<or> c = CHR ''-''
               then c # replicate (width - length s) (CHR ''0'') @ rest
               else replicate (width - length s) (CHR ''0'') @ s)"

text \<open>
  The format specification \<^verbatim>\<open>04d\<close> on an integer: sign, then zeros, then the digits, at
  least four characters in all.
\<close>

definition format_04d :: "int \<Rightarrow> string" where
  "format_04d i =
     (let sgn = (if i < 0 then ''-'' else '''');
          digits = str_nat (nat \<bar>i\<bar>)
      in sgn @ replicate (4 - (length sgn + length digits)) (CHR ''0'') @ digits)"

definition round_half_even :: "rat \<Rightarrow> int" where
  "round_half_even x =
     (let f = \<lfloor>x\<rfloor>; d = x - of_int f
      in if d < 1 / 2 then f else if 1 / 2 < d then f + 1 else if even f then f else f + 1)"

text \<open>
  The format specification \<^verbatim>\<open>.4f\<close> on a float: the exact value rounded to four
  decimals (ties to even), the sign of a negative value kept.
\<close>

definition format_4f :: "rat \<Rightarrow> string" where
  "format_4f x =
     (let n = nat (round_half_even (\<bar>x\<bar> * 10000));
          frac = str_nat (n mod 10000)
      in (if x < 0 then ''-'' else '''') @ str_nat (n div 10000) @ ''.''
           @ replicate (4 - length frac) (CHR ''0'') @ frac)"

text \<open>\<^verbatim>\<open>sub in s\<close> on strings: \<open>sub\<close> occurs in \<open>s\<close> as a contiguous piece.\<close>

fun str_contains :: "string \<Rightarrow> string \<Rightarrow> bool" where
  "str_contains [] sub = (sub = [])"
| "str_contains (c # cs) sub = (prefix sub (c # cs) \<or> str_contains cs sub)"

section \<open>Tensors and state dictionaries\<close>

datatype torch_device = CPU | CUDA

datatype torch_dtype = Float32 | Float64 | Float16 | BFloat16 | Int64

text \<open>
  A tensor is its device, its element type and its numeric contents. The contents are
  kept abstract (type \<open>'v\<close>); converting them between element types is the framework's
  work and is a parameter \<open>convert from to\<close> of the model.
\<close>

record 'v tensor =
  device :: torch_device
  dtype :: torch_dtype
  payload :: 'v

type_synonym 'v converter = "torch_dtype \<Rightarrow> torch_dtype \<Rightarrow> 'v \<Rightarrow> 'v"

definition tensor_cpu :: "'v tensor \<Rightarrow> 'v tensor" where
  "tensor_cpu t = t\<lparr>device := CPU\<rparr>"

definition tensor_to :: "'v converter \<Rightarrow> torch_dtype \<Rightarrow> 'v tensor \<Rightarrow> 'v tensor" where
  "tensor_to convert dt t =
     (if dtype t = dt then t
      else t\<lparr>dtype := dt, payload := convert (dtype t) dt (payload t)\<rparr>)"

text \<open>A state dict: the entries of an ordered dictionary from names to tensors.\<close>

type_synonym 'v state_dict = "(string \<times> 'v tensor) list"

definition last_two_norms :: "string list" where
  "last_two_norms =
     [''layer4.1.bn1.weight'', ''layer4.1.bn1.bias'', ''layer4.1.bn2.weight'', ''layer4.1.bn2.bias'']"

text \<open>\<^verbatim>\<open>any(norm in name for norm in last_two_norms)\<close>\<close>

definition any_norm_in :: "string \<Rightarrow> bool" where
  "any_norm_in name = list_ex (\<lambda>norm. str_contains name norm) last_two_norms"

section \<open>The file system\<close>

text \<open>
  The scripts touch checkpoint directories only: flat directories of regular files. A
  file system maps the path of each existing directory to its entries, a list of file
  names with their contents in the order the directory lists them. A file path is
  resolved by splitting it at its last slash.
\<close>

datatype os_error = FileExistsError | FileNotFoundError | ValueError

type_synonym 'c directory = "(string \<times> 'c) list"

type_synonym 'c filesystem = "string \<Rightarrow> 'c directory option"

definition path_dir :: "string \<Rightarrow> string" where
  "path_dir p = rev (drop 1 (dropWhile (\<lambda>c. c \<noteq> CHR ''/'') (rev p)))"

definition path_name :: "string \<Rightarrow> string" where
  "path_name p = rev (takeWhile (\<lambda>c. c \<noteq> CHR ''/'') (rev p))"


text \<open>The contents of the regular file at a path, if there is one.\<close>

definition read_file :: "'c filesystem \<Rightarrow> string \<Rightarrow> 'c option" where
  "read_file fs p = (case fs (path_dir p) of None \<Rightarrow> None | Some es \<Rightarrow> map_of es (path_name p))"

definition os_path_isdir :: "'c filesystem \<Rightarrow> string \<Rightarrow> bool" where
  "os_path_isdir fs d = (fs d \<noteq> None)"

definition os_mkdir :: "string \<Rightarrow> 'c filesystem \<Rightarrow> os_error + 'c filesystem" where
  "os_mkdir d fs = (if fs d \<noteq> None then Inl FileExistsError else Inr (fs(d \<mapsto> [])))"



text \<open>Opening a path for writing needs its directory; the file is created or replaced.\<close>

definition write_file :: "string \<Rightarrow> 'c \<Rightarrow> 'c filesystem \<Rightarrow> os_error + 'c filesystem" where
  "write_file p c fs =
     (case fs (path_dir p) of
        None \<Rightarrow> Inl FileNotFoundError
      | Some es \<Rightarrow> Inr (fs(path_dir p \<mapsto> AList.update (path_name p) c es)))"


text \<open>\<^verbatim>\<open>torch.save(obj, path)\<close>: the file at \<open>path\<close> holds the object.\<close>

definition torch_save :: "'c \<Rightarrow> string \<Rightarrow> 'c filesystem \<Rightarrow> os_error + 'c filesystem" where
  "torch_save obj path fs = write_file path obj fs"

section \<open>finetune.py\<close>

subsection \<open>Configuration\<close>

text \<open>
  The configuration holds what \<^verbatim>\<open>config.json\<close> holds. The quota \<open>total_save_number\<close> is
  only ever compared with the counter of saved checkpoints, so it may be any number,
  whole or not: it is a rational.
\<close>

record config =
  dataset_root :: string
  batch_size :: int
  num_workers :: int
  learning_rate :: rat
  weight_decay :: rat
  epochs :: int
  save_learning_rate :: rat
  total_save_number :: rat
  tag :: string
  freeze_epochs :: int
  seed :: int

text \<open>One key of \<^verbatim>\<open>config.json\<close> with its value.\<close>

datatype config_item =
    Dataset_root string
  | Batch_size int
  | Num_workers int
  | Learning_rate rat
  | Weight_decay rat
  | Epochs int
  | Save_learning_rate rat
  | Total_save_number rat
  | Tag string
  | Freeze_epochs int
  | Seed int

fun config_update :: "config_item \<Rightarrow> config \<Rightarrow> config" where
  "config_update (Dataset_root v) c = c\<lparr>dataset_root := v\<rparr>"
| "config_update (Batch_size v) c = c\<lparr>batch_size := v\<rparr>"
| "config_update (Num_workers v) c = c\<lparr>num_workers := v\<rparr>"
| "config_update (Learning_rate v) c = c\<lparr>learning_rate := v\<rparr>"
| "config_update (Weight_decay v) c = c\<lparr>weight_decay := v\<rparr>"
| "config_update (Epochs v) c = c\<lparr>epochs := v\<rparr>"
| "config_update (Save_learning_rate v) c = c\<lparr>save_learning_rate := v\<rparr>"
| "config_update (Total_save_number v) c = c\<lparr>total_save_number := v\<rparr>"
| "config_update (Tag v) c = c\<lparr>tag := v\<rparr>"
| "config_update (Freeze_epochs v) c = c\<lparr>freeze_epochs := v\<rparr>"
| "config_update (Seed v) c = c\<lparr>seed := v\<rparr>"

text \<open>
  \<open>get_config\<close>: the defaults, updated with the items of \<^verbatim>\<open>config.json\<close>. The default
  tag is the name of the script's directory.
\<close>

definition get_config :: "string \<Rightarrow> config_item list \<Rightarrow> config" where
  "get_config script_dir additional_config =
     fold config_update additional_config
       \<lparr>dataset_root = ''from_additional_config'',
        batch_size = 64,
        num_workers = 4,
        learning_rate = 5 / 100,
        weight_decay = 5 / 10000,
        epochs = 1,
        save_learning_rate = 5 / 100,
        total_save_number = 300,
        tag = script_dir,
        freeze_epochs = 0,
        seed = 40\<rparr>"

subsection \<open>set_seed\<close>

text \<open>
  \<open>set_seed\<close> hands the seed to \<^verbatim>\<open>random.seed\<close>, \<^verbatim>\<open>np.random.seed\<close> and
  \<^verbatim>\<open>torch.manual_seed\<close>. Of these \<^verbatim>\<open>np.random.seed\<close> is the strictest: it raises
  ValueError unless the seed is between 0 and \<open>2^32 - 1\<close>.
\<close>

definition set_seed :: "int \<Rightarrow> os_error + unit" where
  "set_seed s = (if 0 \<le> s \<and> s \<le> 2 ^ 32 - 1 then Inr () else Inl ValueError)"

subsection \<open>save_checkpoint\<close>

definition save_state :: "'v converter \<Rightarrow> 'v state_dict \<Rightarrow> 'v state_dict" where
  "save_state convert sd =
     map (\<lambda>(key, value). (key, tensor_to convert Float32 (tensor_cpu value)))
       (filter (\<lambda>(key, value). any_norm_in key) sd)"

definition checkpoint_path :: "int \<Rightarrow> rat \<Rightarrow> config \<Rightarrow> string" where
  "checkpoint_path batch_idx acc cfg =
     ''checkpoint/'' @ zfill 4 (str_int batch_idx) @ ''_acc'' @ format_4f acc
       @ ''_seed'' @ format_04d (seed cfg) @ ''_'' @ tag cfg @ ''.pth''"

definition save_checkpoint ::
  "'v converter \<Rightarrow> 'v state_dict \<Rightarrow> int \<Rightarrow> rat \<Rightarrow> config \<Rightarrow> 'v state_dict filesystem
     \<Rightarrow> os_error + 'v state_dict filesystem" where
  "save_checkpoint convert model_sd batch_idx acc cfg fs =
     (case (if \<not> os_path_isdir fs ''checkpoint'' then os_mkdir ''checkpoint'' fs else Inr fs) of
        Inl e \<Rightarrow> Inl e
      | Inr fs1 \<Rightarrow>
          torch_save (save_state convert model_sd) (checkpoint_path batch_idx acc cfg) fs1)"

subsection \<open>The training loop\<close>

text \<open>
  What a run does is recorded as a trace: one \<open>TrainStep j batch_idx\<close> for each batch
  trained on (forward and backward pass, optimizer and scheduler step) and one
  \<open>Saved path\<close> for each call of \<open>save_checkpoint\<close> that returned. The effect of a
  training step on the model's state dict is the framework's work and is a parameter
  \<open>train_step\<close> of the model.
\<close>

datatype event = TrainStep nat nat | Saved string

datatype halt = Exit int | Raised os_error

record 'v run_state =
  model_sd :: "'v state_dict"
  ckpt_num :: int
  files :: "'v state_dict filesystem"
  trace :: "event list"

type_synonym 'v trainer = "nat \<Rightarrow> nat \<Rightarrow> 'v state_dict \<Rightarrow> 'v state_dict"

type_synonym 'v outcome = "(halt \<times> 'v run_state) + 'v run_state"

definition save_interval :: int where
  "save_interval = 1"

text \<open>The check that ends each iteration: \<^verbatim>\<open>exit(0)\<close> once the quota is reached.\<close>

definition quota_check :: "config \<Rightarrow> 'v run_state \<Rightarrow> 'v outcome" where
  "quota_check cfg st =
     (if total_save_number cfg \<le> of_int (ckpt_num st) then Inl (Exit 0, st) else Inr st)"

text \<open>One iteration of the inner loop, on batch \<open>batch_idx\<close> of pass \<open>j\<close>.\<close>

definition loop_body ::
  "'v converter \<Rightarrow> 'v trainer \<Rightarrow> config \<Rightarrow> nat \<Rightarrow> nat \<Rightarrow> nat \<Rightarrow> 'v run_state \<Rightarrow> 'v outcome" where
  "loop_body convert train_step cfg total_batches j batch_idx st =
     (let st1 = st\<lparr>model_sd := train_step j batch_idx (model_sd st),
                   trace := trace st @ [TrainStep j batch_idx]\<rparr>
      in if ((int batch_idx + 1) mod save_interval = 0 \<or> int batch_idx = int total_batches - 1)
            \<and> 1 < batch_idx
         then (case save_checkpoint convert (model_sd st1) (ckpt_num st1) 1 cfg (files st1) of
                 Inl e \<Rightarrow> Inl (Raised e, st1)
               | Inr fs' \<Rightarrow>
                   quota_check cfg
                     (st1\<lparr>files := fs',
                          trace := trace st1 @ [Saved (checkpoint_path (ckpt_num st1) 1 cfg)],
                          ckpt_num := ckpt_num st1 + 1\<rparr>))
         else quota_check cfg st1)"

text \<open>\<^verbatim>\<open>for batch_idx, (inputs, targets) in enumerate(pbar)\<close>, on the batch indices left.\<close>

fun inner_loop ::
  "'v converter \<Rightarrow> 'v trainer \<Rightarrow> config \<Rightarrow> nat \<Rightarrow> nat \<Rightarrow> nat list \<Rightarrow> 'v run_state \<Rightarrow> 'v outcome" where
  "inner_loop convert train_step cfg total_batches j [] st = Inr st"
| "inner_loop convert train_step cfg total_batches j (batch_idx # rest) st =
     (case loop_body convert train_step cfg total_batches j batch_idx st of
        Inl stop \<Rightarrow> Inl stop
      | Inr st' \<Rightarrow> inner_loop convert train_step cfg total_batches j rest st')"

text \<open>\<^verbatim>\<open>for j in range(6)\<close>, on the passes left.\<close>

fun outer_loop ::
  "'v converter \<Rightarrow> 'v trainer \<Rightarrow> config \<Rightarrow> nat \<Rightarrow> nat list \<Rightarrow> 'v run_state \<Rightarrow> 'v outcome" where
  "outer_loop convert train_step cfg total_batches [] st = Inr st"
| "outer_loop convert train_step cfg total_batches (j # rest) st =
     (case inner_loop convert train_step cfg total_batches j [0..<total_batches] st of
        Inl stop \<Rightarrow> Inl stop
      | Inr st' \<Rightarrow> outer_loop convert train_step cfg total_batches rest st')"

definition initial_state :: "'v state_dict \<Rightarrow> 'v state_dict filesystem \<Rightarrow> 'v run_state" where
  "initial_state sd fs = \<lparr>model_sd = sd, ckpt_num = 0, files = fs, trace = []\<rparr>"

text \<open>
  The script from \<open>set_seed\<close> on: \<open>total_batches\<close> is the length of the train loader,
  \<open>sd\<close> the state dict of the pretrained model, \<open>fs\<close> the file system it starts in.
  \<open>Inr\<close> is a run that reaches the end of the script, \<open>Inl\<close> one that exits or raises.
  Loading the data and the model, the initial test and the progress bar are the
  framework's and write no checkpoint; they are left out.
\<close>

definition finetune ::
  "'v converter \<Rightarrow> 'v trainer \<Rightarrow> config \<Rightarrow> nat \<Rightarrow> 'v state_dict \<Rightarrow> 'v state_dict filesystem
     \<Rightarrow> 'v outcome" where
  "finetune convert train_step cfg total_batches sd fs =
     (case set_seed (seed cfg) of
        Inl e \<Rightarrow> Inl (Raised e, initial_state sd fs)
      | Inr _ \<Rightarrow> outer_loop convert train_step cfg total_batches [0..<6] (initial_state sd fs))"

definition final_state :: "'v outcome \<Rightarrow> 'v run_state" where
  "final_state r = (case r of Inl (h, st) \<Rightarrow> st | Inr st \<Rightarrow> st)"

definition final_halt :: "'v outcome \<Rightarrow> halt option" where
  "final_halt r = (case r of Inl (h, st) \<Rightarrow> Some h | Inr st \<Rightarrow> None)"

fun saved_paths :: "event list \<Rightarrow> string list" where
  "saved_paths [] = []"
| "saved_paths (Saved p # es) = p # saved_paths es"
| "saved_paths (TrainStep j b # es) = saved_paths es"

fun train_steps :: "event list \<Rightarrow> (nat \<times> nat) list" where
  "train_steps [] = []"
| "train_steps (TrainStep j b # es) = (j, b) # train_steps es"
| "train_steps (Saved p # es) = train_steps es"

subsection \<open>get_optimizer_and_scheduler\<close>

text \<open>
  A model parameter is a tensor with its \<open>requires_grad\<close> flag; \<open>named_parameters\<close> is
  the list of the model's parameters with their names, which are distinct. The list
  \<open>trainable_params\<close> of the source holds references to parameter objects; a reference
  is modelled by the parameter's name.
\<close>

record 'v parameter =
  data :: "'v tensor"
  requires_grad :: bool

type_synonym 'v named_parameters = "(string \<times> 'v parameter) list"

record optimizer =
  opt_params :: "string list"
  opt_lr :: rat
  opt_weight_decay :: rat

record scheduler =
  sched_T_max :: nat
  sched_eta_min :: rat

text \<open>The loop over \<open>named_parameters\<close>, with the list \<open>trainable_params\<close> built so far.\<close>

fun mark_trainable ::
  "'v named_parameters \<Rightarrow> string list \<Rightarrow> 'v named_parameters \<times> string list" where
  "mark_trainable [] trainable_params = ([], trainable_params)"
| "mark_trainable ((name, param) # rest) trainable_params =
     (if any_norm_in name
      then (let (ps, tr) = mark_trainable rest (trainable_params @ [name])
            in ((name, param\<lparr>requires_grad := True\<rparr>) # ps, tr))
      else (let (ps, tr) = mark_trainable rest trainable_params
            in ((name, param\<lparr>requires_grad := False\<rparr>) # ps, tr)))"

text \<open>
  The result: the model's parameters with their flags set, the optimizer and the
  scheduler. \<open>total_batches\<close> is the length of the train loader.
\<close>

definition get_optimizer_and_scheduler ::
  "'v named_parameters \<Rightarrow> config \<Rightarrow> nat \<Rightarrow> 'v named_parameters \<times> optimizer \<times> scheduler" where
  "get_optimizer_and_scheduler params cfg total_batches =
     (let (params', trainable_params) = mark_trainable params []
      in (params',
          \<lparr>opt_params = trainable_params, opt_lr = learning_rate cfg,
           opt_weight_decay = weight_decay cfg\<rparr>,
          \<lparr>sched_T_max = total_batches, sched_eta_min = save_learning_rate cfg\<rparr>))"

text \<open>
  \<^verbatim>\<open>optimizer.step()\<close> is the framework's: it rewrites the tensors of the parameters the
  optimizer was built with and no others. The new values are floating-point
  arithmetic and are kept abstract: \<open>update name\<close> is any function on tensors.
\<close>

definition optimizer_step ::
  "(string \<Rightarrow> 'v tensor \<Rightarrow> 'v tensor) \<Rightarrow> optimizer \<Rightarrow> 'v named_parameters \<Rightarrow> 'v named_parameters" where
  "optimizer_step update opt params =
     map (\<lambda>(name, p). if name \<in> set (opt_params opt)
                        then (name, p\<lparr>data := update name (data p)\<rparr>)
                        else (name, p)) params"

section \<open>reselect.py\<close>




section \<open>Notions of the specification\<close>

text \<open>
  A decimal numeral is read digit by digit; a digit is a character from \<^verbatim>\<open>0\<close> (code 48)
  to \<^verbatim>\<open>9\<close> (code 57).
\<close>

definition is_digit :: "char \<Rightarrow> bool" where
  "is_digit c \<longleftrightarrow> 48 \<le> (of_char c :: nat) \<and> (of_char c :: nat) \<le> 57"

definition digit_value :: "char \<Rightarrow> nat" where
  "digit_value c = of_char c - 48"

definition digits_value :: "string \<Rightarrow> nat" where
  "digits_value s = foldl (\<lambda>v c. 10 * v + digit_value c) 0 s"

text \<open>
  The text \<open>s\<close> is the number \<open>n\<close> zero-padded to \<open>w\<close> digits: digits only, that read
  as \<open>n\<close>, exactly \<open>w\<close> of them unless \<open>n\<close> needs more, and then with no zero in front.
\<close>

definition is_zero_padded :: "nat \<Rightarrow> nat \<Rightarrow> string \<Rightarrow> bool" where
  "is_zero_padded w n s \<longleftrightarrow>
     list_all is_digit s \<and> digits_value s = n
     \<and> (length s = w \<or> w < length s \<and> hd s \<noteq> CHR ''0'')"

text \<open>
  The text \<open>s\<close> is the number \<open>x\<close> formatted to four decimal places: a minus sign if
  \<open>x\<close> is negative, the digits of the whole part, a point and exactly four digits,
  and read as a decimal numeral it is within half a unit of the last place of \<open>x\<close>.
\<close>

definition four_decimals_of :: "rat \<Rightarrow> string \<Rightarrow> bool" where
  "four_decimals_of x s \<longleftrightarrow>
     (let body = (if x < 0 then drop 1 s else s);
          whole = takeWhile (\<lambda>c. c \<noteq> CHR ''.'') body;
          frac = drop (Suc (length whole)) body
      in s = (if x < 0 then ''-'' else []) @ whole @ ''.'' @ frac
         \<and> whole \<noteq> [] \<and> list_all is_digit whole
         \<and> length frac = 4 \<and> list_all is_digit frac
         \<and> \<bar>\<bar>x\<bar> - (of_nat (digits_value whole) + of_nat (digits_value frac) / 10000)\<bar>
             \<le> 1 / 20000)"

text \<open>
  The layout of a checkpoint file's name: the index, \<^verbatim>\<open>_acc\<close> and the accuracy,
  \<^verbatim>\<open>_seed\<close> and the seed, \<^verbatim>\<open>_\<close> and the tag, then \<^verbatim>\<open>.pth\<close>, in the directory
  \<^verbatim>\<open>checkpoint\<close>.
\<close>

definition checkpoint_file :: "string \<Rightarrow> string \<Rightarrow> string \<Rightarrow> string \<Rightarrow> string" where
  "checkpoint_file index_text acc_text seed_text tag_value =
     ''checkpoint/'' @ index_text @ ''_acc'' @ acc_text
       @ ''_seed'' @ seed_text @ ''_'' @ tag_value @ ''.pth''"

text \<open>All the batches of the six passes over a train loader, in the order of the loop.\<close>

definition all_batches :: "nat \<Rightarrow> (nat \<times> nat) list" where
  "all_batches total_batches =
     concat (map (\<lambda>j. map (\<lambda>batch_idx. (j, batch_idx)) [0..<total_batches]) [0..<6])"

text \<open>A key names one of the last normalization layer's weights or biases.\<close>

definition names_last_norm :: "string \<Rightarrow> bool" where
  "names_last_norm key =
     (\<exists>norm \<in> {''layer4.1.bn1.weight'', ''layer4.1.bn1.bias'',
                 ''layer4.1.bn2.weight'', ''layer4.1.bn2.bias''}. sublist norm key)"

section \<open>Invariants of the training loop\<close>

text \<open>
  The checkpoints saved so far are numbered from 0 up to \<open>ckpt_num\<close>, in order, and
  their files are there.
\<close>

definition names_inv :: "config \<Rightarrow> 'v run_state \<Rightarrow> bool" where
  "names_inv cfg st \<longleftrightarrow>
     0 \<le> ckpt_num st
     \<and> saved_paths (trace st) = map (\<lambda>n. checkpoint_path (int n) 1 cfg) [0..<nat (ckpt_num st)]
     \<and> (\<forall>p \<in> set (saved_paths (trace st)). read_file (files st) p \<noteq> None)"

text \<open>
  While the script runs, \<open>ckpt_num\<close> counts the checkpoints saved and is below the
  quota; when it halts, it has either exited with status 0 right after the save that
  reached the quota, or raised below the quota.
\<close>

definition quota_inv :: "config \<Rightarrow> 'v run_state \<Rightarrow> bool" where
  "quota_inv cfg st \<longleftrightarrow>
     ckpt_num st = int (length (saved_paths (trace st)))
     \<and> of_int (ckpt_num st) < total_save_number cfg"

definition quota_halt :: "config \<Rightarrow> halt \<times> 'v run_state \<Rightarrow> bool" where
  "quota_halt cfg hs \<longleftrightarrow>
     ckpt_num (snd hs) = int (length (saved_paths (trace (snd hs))))
     \<and> (fst hs = Exit 0
          \<and> total_save_number cfg \<le> of_nat (length (saved_paths (trace (snd hs))))
          \<and> of_nat (length (saved_paths (trace (snd hs)))) < total_save_number cfg + 1
          \<and> (\<exists>tr p. trace (snd hs) = tr @ [Saved p])
        \<or> (\<exists>e. fst hs = Raised e)
          \<and> of_nat (length (saved_paths (trace (snd hs)))) < total_save_number cfg)"

text \<open>The zero-padded numeral of a number, as the formatting functions build it.\<close>

definition zero_padded :: "nat \<Rightarrow> nat \<Rightarrow> string" where
  "zero_padded w n = replicate (w - length (str_nat n)) (CHR ''0'') @ str_nat n"

text \<open>
  The traces of whole iterations: a training step on a batch of index 0 or 1, or a
  training step on a batch of a larger index followed by a save. A run that halts
  has such a trace, or has raised in the save after a training step.
\<close>

inductive iterations :: "event list \<Rightarrow> bool" where
  none: "iterations []"
| train: "iterations tr \<Longrightarrow> b \<le> 1 \<Longrightarrow> iterations (tr @ [TrainStep j b])"
| train_save: "iterations tr \<Longrightarrow> 1 < b \<Longrightarrow> iterations (tr @ [TrainStep j b, Saved p])"

definition iterations_halt :: "halt \<times> 'v run_state \<Rightarrow> bool" where
  "iterations_halt hs \<longleftrightarrow>
     iterations (trace (snd hs))
     \<or> (\<exists>e tr j b. fst hs = Raised e \<and> trace (snd hs) = tr @ [TrainStep j b] \<and> 1 < b
          \<and> iterations tr)"

text \<open>
  The file system after a file of the directory \<^verbatim>\<open>checkpoint\<close> is written: what
  \<open>save_checkpoint\<close> returns when the name it computes lies in that directory.
\<close>

definition with_checkpoint ::
  "string \<Rightarrow> 'c \<Rightarrow> 'c filesystem \<Rightarrow> 'c filesystem" where
  "with_checkpoint name c fs =
     fs(''checkpoint'' \<mapsto> AList.update name c (case fs ''checkpoint'' of None \<Rightarrow> [] | Some es \<Rightarrow> es))"

section \<open>Example inputs\<close>

definition example_config :: config where
  "example_config = get_config ''stl10_resnet18'' []"

definition two_saves_config :: config where
  "two_saves_config = example_config\<lparr>total_save_number := 2\<rparr>"

definition negative_quota_config :: config where
  "negative_quota_config = example_config\<lparr>total_save_number := - 1\<rparr>"

definition zero_quota_config :: config where
  "zero_quota_config = example_config\<lparr>total_save_number := 0\<rparr>"

definition fractional_quota_config :: config where
  "fractional_quota_config = example_config\<lparr>total_save_number := 5 / 2\<rparr>"

definition example_convert :: "nat converter" where
  "example_convert from to v = v"

definition example_trainer :: "nat trainer" where
  "example_trainer j batch_idx sd =
     map (\<lambda>(key, t). (key, t\<lparr>payload := payload t + 1\<rparr>)) sd"

definition example_state_dict :: "nat state_dict" where
  "example_state_dict =
     [(''layer4.1.bn1.weight'', \<lparr>device = CUDA, dtype = BFloat16, payload = 1\<rparr>),
      (''layer4.1.bn1.running_mean'', \<lparr>device = CUDA, dtype = Float32, payload = 2\<rparr>),
      (''fc.weight'', \<lparr>device = CUDA, dtype = Float32, payload = 3\<rparr>)]"

definition example_checkpoint :: "nat state_dict" where
  "example_checkpoint =
     [(''layer4.1.bn1.weight'', \<lparr>device = CPU, dtype = Float32, payload = 1\<rparr>)]"

definition example_parameters :: "nat named_parameters" where
  "example_parameters =
     [(''layer4.1.bn1.weight'',
         \<lparr>data = \<lparr>device = CUDA, dtype = Float32, payload = 1\<rparr>, requires_grad = True\<rparr>),
      (''fc.weight'',
         \<lparr>data = \<lparr>device = CUDA, dtype = Float32, payload = 3\<rparr>, requires_grad = True\<rparr>)]"


definition example_marked_parameters :: "nat named_parameters" where
  "example_marked_parameters =
     [(''layer4.1.bn1.weight'',
         \<lparr>data = \<lparr>device = CUDA, dtype = Float32, payload = 1\<rparr>, requires_grad = True\<rparr>),
      (''fc.weight'',
         \<lparr>data = \<lparr>device = CUDA, dtype = Float32, payload = 3\<rparr>, requires_grad = False\<rparr>)]"

definition example_optimizer :: optimizer where
  "example_optimizer =
     \<lparr>opt_params = [''layer4.1.bn1.weight''], opt_lr = 5 / 100, opt_weight_decay = 5 / 10000\<rparr>"

definition example_scheduler :: scheduler where
  "example_scheduler = \<lparr>sched_T_max = 79, sched_eta_min = 5 / 100\<rparr>"

definition example_updates :: "(string \<Rightarrow> nat tensor \<Rightarrow> nat tensor) list" where
  "example_updates =
     [\<lambda>name t. t\<lparr>payload := payload t + 1\<rparr>, \<lambda>name t. t\<lparr>payload := 2 * payload t\<rparr>]"



section \<open>Evaluating the formatting functions\<close>

lemma replicate_numeral: "replicate (numeral k) x = x # replicate (pred_numeral k) x"
  by (simp add: numeral_eq_Suc)

lemmas format_eval = zfill_def str_int_def format_04d_def format_4f_def round_half_even_def
  str_nat.simps digit_char_def Let_def replicate_numeral

lemma format_4f_one: "format_4f 1 = ''1.0000''"
  by (simp add: format_eval)

lemma example_checkpoint_path:
  "checkpoint_path 7 1 example_config = ''checkpoint/0007_acc1.0000_seed0040_stl10_resnet18.pth''"
  by (simp add: checkpoint_path_def example_config_def get_config_def format_4f_one)
     (simp add: format_eval)

section \<open>save_checkpoint\<close>

lemma str_contains_sublist: "str_contains s sub \<longleftrightarrow> sublist sub s"
  by (induction s) (simp_all add: sublist_Cons_right)

lemma any_norm_in_iff: "any_norm_in name \<longleftrightarrow> names_last_norm name"
  unfolding any_norm_in_def names_last_norm_def last_two_norms_def list_ex_iff
    str_contains_sublist
  by simp

lemma read_write_file: "write_file p c fs = Inr fs' \<Longrightarrow> read_file fs' p = Some c"
  by (auto simp: write_file_def read_file_def update_conv' split: option.splits)

lemma write_file_isdir:
  "write_file p c fs = Inr fs' \<Longrightarrow> os_path_isdir fs d \<Longrightarrow> os_path_isdir fs' d"
  by (auto simp: write_file_def os_path_isdir_def split: option.splits)

lemma save_checkpoint_Inr:
  assumes "save_checkpoint convert sd batch_idx acc cfg fs = Inr fs'"
  shows "\<exists>fs1. (if os_path_isdir fs ''checkpoint'' then fs1 = fs
                else os_mkdir ''checkpoint'' fs = Inr fs1)
           \<and> os_path_isdir fs1 ''checkpoint''
           \<and> write_file (checkpoint_path batch_idx acc cfg) (save_state convert sd) fs1 = Inr fs'"
  using assms
  by (auto simp: save_checkpoint_def torch_save_def os_mkdir_def os_path_isdir_def
           split: if_splits sum.splits)

lemma save_checkpoint_read:
  assumes "save_checkpoint convert sd batch_idx acc cfg fs = Inr fs'"
  shows "read_file fs' (checkpoint_path batch_idx acc cfg) = Some (save_state convert sd)"
proof -
  from save_checkpoint_Inr [OF assms] obtain fs1 where
    "write_file (checkpoint_path batch_idx acc cfg) (save_state convert sd) fs1 = Inr fs'"
    by blast
  then show ?thesis by (rule read_write_file)
qed

lemma map_fst_save_state:
  "map fst (save_state convert sd) = filter any_norm_in (map fst sd)"
  unfolding save_state_def by (induction sd) auto

lemma save_state_entry:
  "(key, t) \<in> set (save_state convert sd) \<Longrightarrow>
     \<exists>value. (key, value) \<in> set sd \<and> t = tensor_to convert Float32 (tensor_cpu value)"
  unfolding save_state_def by auto

lemma tensor_to_cpu_float32:
  "device (tensor_to convert Float32 (tensor_cpu v)) = CPU"
  "dtype (tensor_to convert Float32 (tensor_cpu v)) = Float32"
  by (simp_all add: tensor_to_def tensor_cpu_def)

lemma example_save_state: "save_state example_convert example_state_dict = example_checkpoint"
  by (simp add: save_state_def example_state_dict_def example_checkpoint_def any_norm_in_def
      last_two_norms_def tensor_to_def tensor_cpu_def example_convert_def)

lemma example_save_checkpoint:
  "save_checkpoint example_convert example_state_dict 7 1 example_config Map.empty
     = Inr [''checkpoint'' \<mapsto>
             [(''0007_acc1.0000_seed0040_stl10_resnet18.pth'', example_checkpoint)]]"
  unfolding save_checkpoint_def example_checkpoint_path example_save_state
  by (simp add: os_path_isdir_def os_mkdir_def torch_save_def write_file_def path_dir_def
      path_name_def)

text \<open>
  C2. A checkpoint written by \<open>save_checkpoint\<close> holds exactly the entries of the state
  dict whose key contains one of the four names of the last normalization layer's
  weights and biases, in the state dict's order, each with the state dict's tensor
  (moved to the CPU and converted to float32), and nothing else.
\<close>

theorem save_checkpoint_only_last_norms:
  assumes "save_checkpoint convert sd batch_idx acc cfg fs = Inr fs'"
  shows "\<exists>ckpt. read_file fs' (checkpoint_path batch_idx acc cfg) = Some ckpt
           \<and> map fst ckpt =
               filter (\<lambda>key. \<exists>norm \<in> {''layer4.1.bn1.weight'', ''layer4.1.bn1.bias'',
                                       ''layer4.1.bn2.weight'', ''layer4.1.bn2.bias''}.
                               sublist norm key) (map fst sd)
           \<and> (\<forall>(key, t) \<in> set ckpt.
                 \<exists>value. (key, value) \<in> set sd
                   \<and> t = tensor_to convert Float32 (tensor_cpu value))"
proof -
  let ?ckpt = "save_state convert sd"
  have "read_file fs' (checkpoint_path batch_idx acc cfg) = Some ?ckpt"
    by (rule save_checkpoint_read [OF assms])
  moreover have "map fst ?ckpt =
      filter (\<lambda>key. \<exists>norm \<in> {''layer4.1.bn1.weight'', ''layer4.1.bn1.bias'',
                              ''layer4.1.bn2.weight'', ''layer4.1.bn2.bias''}.
                      sublist norm key) (map fst sd)"
    unfolding map_fst_save_state
    by (rule filter_cong) (simp_all add: any_norm_in_iff names_last_norm_def)
  moreover have "\<forall>(key, t) \<in> set ?ckpt.
      \<exists>value. (key, value) \<in> set sd \<and> t = tensor_to convert Float32 (tensor_cpu value)"
    using save_state_entry by fastforce
  ultimately show ?thesis by blast
qed

theorem save_checkpoint_only_last_norms_witness:
  "save_checkpoint example_convert example_state_dict 7 1 example_config Map.empty
     = Inr [''checkpoint'' \<mapsto>
             [(''0007_acc1.0000_seed0040_stl10_resnet18.pth'', example_checkpoint)]]
   \<and> (\<exists>ckpt. read_file [''checkpoint'' \<mapsto>
                 [(''0007_acc1.0000_seed0040_stl10_resnet18.pth'', example_checkpoint)]]
                 (checkpoint_path 7 1 example_config) = Some ckpt
           \<and> map fst ckpt =
               filter (\<lambda>key. \<exists>norm \<in> {''layer4.1.bn1.weight'', ''layer4.1.bn1.bias'',
                                       ''layer4.1.bn2.weight'', ''layer4.1.bn2.bias''}.
                               sublist norm key) (map fst example_state_dict)
           \<and> (\<forall>(key, t) \<in> set ckpt.
                 \<exists>value. (key, value) \<in> set example_state_dict
                   \<and> t = tensor_to example_convert Float32 (tensor_cpu value)))"
  by (rule conjI [OF example_save_checkpoint
        save_checkpoint_only_last_norms [OF example_save_checkpoint]])

text \<open>
  C9. Every tensor of a checkpoint written by \<open>save_checkpoint\<close> is on the CPU and has
  element type float32, whatever device and element type the model's tensors have.
\<close>

theorem save_checkpoint_cpu_float32:
  assumes "save_checkpoint convert sd batch_idx acc cfg fs = Inr fs'"
  shows "\<exists>ckpt. read_file fs' (checkpoint_path batch_idx acc cfg) = Some ckpt
           \<and> (\<forall>(key, t) \<in> set ckpt. device t = CPU \<and> dtype t = Float32)"
proof -
  have "read_file fs' (checkpoint_path batch_idx acc cfg) = Some (save_state convert sd)"
    by (rule save_checkpoint_read [OF assms])
  moreover have "\<forall>(key, t) \<in> set (save_state convert sd). device t = CPU \<and> dtype t = Float32"
    using save_state_entry tensor_to_cpu_float32 by fastforce
  ultimately show ?thesis by blast
qed

theorem save_checkpoint_cpu_float32_witness:
  "save_checkpoint example_convert example_state_dict 7 1 example_config Map.empty
     = Inr [''checkpoint'' \<mapsto>
             [(''0007_acc1.0000_seed0040_stl10_resnet18.pth'', example_checkpoint)]]
   \<and> (\<exists>ckpt. read_file [''checkpoint'' \<mapsto>
                 [(''0007_acc1.0000_seed0040_stl10_resnet18.pth'', example_checkpoint)]]
                 (checkpoint_path 7 1 example_config) = Some ckpt
           \<and> (\<forall>(key, t) \<in> set ckpt. device t = CPU \<and> dtype t = Float32))"
  by (rule conjI [OF example_save_checkpoint
        save_checkpoint_cpu_float32 [OF example_save_checkpoint]])

text \<open>
  C7. After \<open>save_checkpoint\<close> has returned, the directory \<^verbatim>\<open>checkpoint\<close> exists and the
  file with the computed name exists. When the directory did not exist before, it is
  created first: \<open>os.mkdir\<close> returns a file system that has it, and the file is written
  into that one.
\<close>

theorem save_checkpoint_creates_file:
  assumes "save_checkpoint convert sd batch_idx acc cfg fs = Inr fs'"
  shows "os_path_isdir fs' ''checkpoint''
       \<and> read_file fs' (checkpoint_path batch_idx acc cfg) \<noteq> None
       \<and> (\<not> os_path_isdir fs ''checkpoint'' \<longrightarrow>
            (\<exists>fs1. os_mkdir ''checkpoint'' fs = Inr fs1 \<and> os_path_isdir fs1 ''checkpoint''
               \<and> torch_save (save_state convert sd) (checkpoint_path batch_idx acc cfg) fs1
                   = Inr fs'))"
proof -
  from save_checkpoint_Inr [OF assms] obtain fs1 where
    fs1: "if os_path_isdir fs ''checkpoint'' then fs1 = fs
          else os_mkdir ''checkpoint'' fs = Inr fs1"
    and dir: "os_path_isdir fs1 ''checkpoint''"
    and wr: "write_file (checkpoint_path batch_idx acc cfg) (save_state convert sd) fs1 = Inr fs'"
    by blast
  have "os_path_isdir fs' ''checkpoint''"
    by (rule write_file_isdir [OF wr dir])
  moreover have "read_file fs' (checkpoint_path batch_idx acc cfg) \<noteq> None"
    using read_write_file [OF wr] by simp
  moreover have "\<not> os_path_isdir fs ''checkpoint'' \<longrightarrow>
      (\<exists>fs1. os_mkdir ''checkpoint'' fs = Inr fs1 \<and> os_path_isdir fs1 ''checkpoint''
         \<and> torch_save (save_state convert sd) (checkpoint_path batch_idx acc cfg) fs1 = Inr fs')"
    using fs1 dir wr by (auto simp: torch_save_def)
  ultimately show ?thesis by blast
qed

theorem save_checkpoint_creates_file_witness:
  "\<not> os_path_isdir (Map.empty :: nat state_dict filesystem) ''checkpoint''
   \<and> save_checkpoint example_convert example_state_dict 7 1 example_config Map.empty
     = Inr [''checkpoint'' \<mapsto>
             [(''0007_acc1.0000_seed0040_stl10_resnet18.pth'', example_checkpoint)]]
   \<and> os_path_isdir [''checkpoint'' \<mapsto>
         [(''0007_acc1.0000_seed0040_stl10_resnet18.pth'', example_checkpoint)]] ''checkpoint''
   \<and> read_file [''checkpoint'' \<mapsto>
         [(''0007_acc1.0000_seed0040_stl10_resnet18.pth'', example_checkpoint)]]
         (checkpoint_path 7 1 example_config) \<noteq> None
   \<and> (\<exists>fs1. os_mkdir ''checkpoint'' (Map.empty :: nat state_dict filesystem) = Inr fs1
          \<and> os_path_isdir fs1 ''checkpoint''
          \<and> torch_save (save_state example_convert example_state_dict)
               (checkpoint_path 7 1 example_config) fs1
              = Inr [''checkpoint'' \<mapsto>
                  [(''0007_acc1.0000_seed0040_stl10_resnet18.pth'', example_checkpoint)]])"
proof -
  have nodir: "\<not> os_path_isdir (Map.empty :: nat state_dict filesystem) ''checkpoint''"
    by (simp add: os_path_isdir_def)
  from save_checkpoint_creates_file [OF example_save_checkpoint] nodir
  show ?thesis using example_save_checkpoint by blast
qed

section \<open>The training loop\<close>

text \<open>
  A property \<open>R\<close> of the running state that each iteration keeps, or hands over as
  \<open>H\<close> when the iteration halts the script, holds throughout the loops.
\<close>

lemma inner_loop_rule:
  assumes body: "\<And>b st. R st \<Longrightarrow>
      (case loop_body convert train_step cfg tb j b st of Inl hs \<Rightarrow> H hs | Inr st' \<Rightarrow> R st')"
    and "R st"
  shows "case inner_loop convert train_step cfg tb j bs st of Inl hs \<Rightarrow> H hs | Inr st' \<Rightarrow> R st'"
  using \<open>R st\<close>
proof (induction bs arbitrary: st)
  case Nil
  then show ?case by simp
next
  case (Cons b bs)
  show ?case
  proof (cases "loop_body convert train_step cfg tb j b st")
    case (Inl hs)
    with body [OF Cons.prems, of b] show ?thesis by simp
  next
    case (Inr st')
    with body [OF Cons.prems, of b] have "R st'" by simp
    from Cons.IH [OF this] Inr show ?thesis by simp
  qed
qed

lemma outer_loop_rule:
  assumes body: "\<And>j b st. R st \<Longrightarrow>
      (case loop_body convert train_step cfg tb j b st of Inl hs \<Rightarrow> H hs | Inr st' \<Rightarrow> R st')"
    and "R st"
  shows "case outer_loop convert train_step cfg tb js st of Inl hs \<Rightarrow> H hs | Inr st' \<Rightarrow> R st'"
  using \<open>R st\<close>
proof (induction js arbitrary: st)
  case Nil
  then show ?case by simp
next
  case (Cons j js)
  note inner = inner_loop_rule [where R = R and H = H, OF body Cons.prems, of j "[0..<tb]"]
  show ?case
  proof (cases "inner_loop convert train_step cfg tb j [0..<tb] st")
    case (Inl hs)
    with inner show ?thesis by simp
  next
    case (Inr st')
    with inner have "R st'" by simp
    from Cons.IH [OF this] Inr show ?thesis by simp
  qed
qed

lemma loop_body_unfold:
  "loop_body convert train_step cfg tb j b st =
     (if 1 < b
      then (case save_checkpoint convert (train_step j b (model_sd st)) (ckpt_num st) 1 cfg (files st) of
              Inl e \<Rightarrow> Inl (Raised e, st\<lparr>model_sd := train_step j b (model_sd st),
                                        trace := trace st @ [TrainStep j b]\<rparr>)
            | Inr fs' \<Rightarrow>
                quota_check cfg
                  (st\<lparr>model_sd := train_step j b (model_sd st),
                      files := fs',
                      trace := trace st @ [TrainStep j b, Saved (checkpoint_path (ckpt_num st) 1 cfg)],
                      ckpt_num := ckpt_num st + 1\<rparr>))
      else quota_check cfg (st\<lparr>model_sd := train_step j b (model_sd st),
                               trace := trace st @ [TrainStep j b]\<rparr>))"
  by (simp add: loop_body_def save_interval_def Let_def split: sum.splits)

lemma saved_paths_append: "saved_paths (xs @ ys) = saved_paths xs @ saved_paths ys"
  by (induction xs rule: saved_paths.induct) simp_all

lemma write_file_keeps: "write_file q c fs = Inr fs' \<Longrightarrow> read_file fs p \<noteq> None \<Longrightarrow> read_file fs' p \<noteq> None"
  by (auto simp: write_file_def read_file_def update_conv' split: option.splits if_splits)

lemma save_checkpoint_keeps:
  assumes "save_checkpoint convert sd n acc cfg fs = Inr fs'" "read_file fs p \<noteq> None"
  shows "read_file fs' p \<noteq> None"
proof -
  from save_checkpoint_Inr [OF assms(1)] obtain fs1 where
    fs1: "if os_path_isdir fs ''checkpoint'' then fs1 = fs else os_mkdir ''checkpoint'' fs = Inr fs1"
    and wr: "write_file (checkpoint_path n acc cfg) (save_state convert sd) fs1 = Inr fs'"
    by blast
  have "read_file fs1 p \<noteq> None"
    using fs1 assms(2)
    by (auto simp: os_mkdir_def os_path_isdir_def read_file_def split: if_splits option.splits)
  with wr show ?thesis by (rule write_file_keeps)
qed

lemma names_inv_body:
  assumes "names_inv cfg st"
  shows "case loop_body convert train_step cfg tb j b st of
           Inl hs \<Rightarrow> names_inv cfg (snd hs) | Inr st' \<Rightarrow> names_inv cfg st'"
proof (cases "1 < b")
  case False
  with assms show ?thesis
    by (simp add: loop_body_unfold quota_check_def names_inv_def saved_paths_append)
next
  case True
  show ?thesis
  proof (cases "save_checkpoint convert (train_step j b (model_sd st)) (ckpt_num st) 1 cfg (files st)")
    case (Inl e)
    with True assms show ?thesis
      by (simp add: loop_body_unfold names_inv_def saved_paths_append)
  next
    case (Inr fs')
    have nat_eq: "nat (ckpt_num st + 1) = Suc (nat (ckpt_num st))" "int (nat (ckpt_num st)) = ckpt_num st"
      using assms by (auto simp: names_inv_def)
    have keep: "\<forall>p \<in> set (saved_paths (trace st)). read_file fs' p \<noteq> None"
      using assms save_checkpoint_keeps [OF Inr] by (auto simp: names_inv_def)
    have new: "read_file fs' (checkpoint_path (ckpt_num st) 1 cfg) \<noteq> None"
      using save_checkpoint_read [OF Inr] by simp
    from True Inr assms keep new show ?thesis
      by (simp add: loop_body_unfold quota_check_def names_inv_def saved_paths_append nat_eq)
  qed
qed

lemma names_inv_finetune:
  "names_inv cfg (final_state (finetune convert train_step cfg tb sd fs))"
proof (cases "set_seed (seed cfg)")
  case (Inl e)
  then show ?thesis
    by (simp add: finetune_def final_state_def names_inv_def initial_state_def)
next
  case (Inr u)
  have init: "names_inv cfg (initial_state sd fs)"
    by (simp add: names_inv_def initial_state_def)
  from outer_loop_rule [where R = "names_inv cfg" and H = "\<lambda>hs. names_inv cfg (snd hs)",
      OF names_inv_body init, of convert train_step tb "[0..<6]"]
  show ?thesis using Inr
    by (auto simp: finetune_def final_state_def split: sum.splits)
qed

lemma digit_char_digit: "d < 10 \<Longrightarrow> digit_char d \<in> set ''0123456789''"
  unfolding digit_char_def by (rule nth_mem) simp

lemma str_nat_digits: "set (str_nat n) \<subseteq> set ''0123456789''"
proof (induction n rule: str_nat.induct)
  case (1 n)
  show ?case
  proof (cases "n < 10")
    case True
    then show ?thesis
      using digit_char_digit [of n] by (subst str_nat.simps) simp
  next
    case False
    have "n mod 10 < 10" by simp
    from digit_char_digit [OF this] "1.IH" [OF False] False show ?thesis
      by (subst str_nat.simps) simp
  qed
qed

lemma str_nat_nonempty: "str_nat n \<noteq> []"
  by (subst str_nat.simps) simp

lemma zfill_str_nat: "zfill 4 (str_int (int n)) = zero_padded 4 n"
proof -
  obtain c rest where s: "str_nat n = c # rest"
    using str_nat_nonempty [of n] by (cases "str_nat n") auto
  have "c \<in> set ''0123456789''"
    using str_nat_digits [of n] s by auto
  then have "c \<noteq> CHR ''+''" "c \<noteq> CHR ''-''" by auto
  then show ?thesis
    by (simp add: zfill_def str_int_def zero_padded_def s)
qed

lemma format_04d_nat: "0 \<le> s \<Longrightarrow> format_04d s = zero_padded 4 (nat s)"
  by (simp add: format_04d_def zero_padded_def Let_def)

text \<open>Below 10000, a number zero-padded to four digits is its four decimal digits.\<close>

lemma zero_padded_4:
  assumes "n < 10000"
  shows "zero_padded 4 n =
           [digit_char (n div 1000), digit_char (n div 100 mod 10),
            digit_char (n div 10 mod 10), digit_char (n mod 10)]"
proof -
  consider "n < 10" | "10 \<le> n" "n < 100" | "100 \<le> n" "n < 1000" | "1000 \<le> n"
    by linarith
  then show ?thesis
  proof cases
    case 1
    then have "str_nat n = [digit_char n]" by (subst str_nat.simps) simp
    with 1 show ?thesis
      by (simp add: zero_padded_def replicate_numeral digit_char_def)
  next
    case 2
    then have "n div 10 < 10" by simp
    then have "str_nat (n div 10) = [digit_char (n div 10)]" by (subst str_nat.simps) simp
    with 2 have "str_nat n = [digit_char (n div 10), digit_char (n mod 10)]"
      by (subst str_nat.simps) simp
    with 2 show ?thesis
      by (simp add: zero_padded_def replicate_numeral digit_char_def)
  next
    case 3
    then have a: "n div 10 div 10 < 10" "\<not> n div 10 < 10" by simp_all
    then have "str_nat (n div 10 div 10) = [digit_char (n div 10 div 10)]"
      by (subst str_nat.simps) simp
    with a have "str_nat (n div 10) = [digit_char (n div 10 div 10), digit_char (n div 10 mod 10)]"
      by (subst str_nat.simps) simp
    with 3 have "str_nat n = [digit_char (n div 10 div 10), digit_char (n div 10 mod 10),
        digit_char (n mod 10)]"
      by (subst str_nat.simps) simp
    moreover have "n div 10 div 10 = n div 100" by (simp add: div_mult2_eq [symmetric])
    moreover have "n div 100 mod 10 = n div 100" "n div 1000 = 0" using 3 by simp_all
    ultimately show ?thesis
      by (simp add: zero_padded_def replicate_numeral digit_char_def)
  next
    case 4
    with assms have a: "n div 10 div 10 div 10 < 10" "\<not> n div 10 div 10 < 10" "\<not> n div 10 < 10"
      "\<not> n < 10"
      by simp_all
    then have "str_nat (n div 10 div 10 div 10) = [digit_char (n div 10 div 10 div 10)]"
      by (subst str_nat.simps) simp
    with a have "str_nat (n div 10 div 10) =
        [digit_char (n div 10 div 10 div 10), digit_char (n div 10 div 10 mod 10)]"
      by (subst str_nat.simps) simp
    with a have "str_nat (n div 10) =
        [digit_char (n div 10 div 10 div 10), digit_char (n div 10 div 10 mod 10),
         digit_char (n div 10 mod 10)]"
      by (subst str_nat.simps) simp
    with a have "str_nat n =
        [digit_char (n div 10 div 10 div 10), digit_char (n div 10 div 10 mod 10),
         digit_char (n div 10 mod 10), digit_char (n mod 10)]"
      by (subst str_nat.simps) simp
    moreover have "n div 10 div 10 = n div 100" "n div 10 div 10 div 10 = n div 1000"
      by (simp_all add: div_mult2_eq [symmetric])
    ultimately show ?thesis
      by (simp add: zero_padded_def)
  qed
qed

lemma finetune_bad_seed:
  "\<not> (0 \<le> seed cfg \<and> seed cfg \<le> 2 ^ 32 - 1) \<Longrightarrow>
     finetune convert train_step cfg tb sd fs = Inl (Raised ValueError, initial_state sd fs)"
  by (auto simp: finetune_def set_seed_def)

lemma finetune_good_seed:
  "0 \<le> seed cfg \<and> seed cfg \<le> 2 ^ 32 - 1 \<Longrightarrow>
     finetune convert train_step cfg tb sd fs =
       outer_loop convert train_step cfg tb [0..<6] (initial_state sd fs)"
  by (simp add: finetune_def set_seed_def)

subsection \<open>The formatting functions against the specification's notions\<close>

lemma digit_char_value:
  assumes "d < 10"
  shows "digit_value (digit_char d) = d" and "is_digit (digit_char d)"
    and "d \<noteq> 0 \<Longrightarrow> digit_char d \<noteq> CHR ''0''"
proof -
  from assms have "d = 0 \<or> d = 1 \<or> d = 2 \<or> d = 3 \<or> d = 4 \<or> d = 5 \<or> d = 6 \<or> d = 7
      \<or> d = 8 \<or> d = 9"
    by arith
  then show "digit_value (digit_char d) = d" and "is_digit (digit_char d)"
    and "d \<noteq> 0 \<Longrightarrow> digit_char d \<noteq> CHR ''0''"
    by (auto simp: digit_char_def digit_value_def is_digit_def)
qed

lemma is_digit_zero: "is_digit (CHR ''0'')" and digit_value_zero: "digit_value (CHR ''0'') = 0"
  by (simp_all add: is_digit_def digit_value_def)

lemma str_nat_is_digits: "list_all is_digit (str_nat n)"
proof (induction n rule: str_nat.induct)
  case (1 n)
  show ?case
  proof (cases "n < 10")
    case True
    then show ?thesis
      using digit_char_value(2) [of n] by (subst str_nat.simps) simp
  next
    case False
    have "n mod 10 < 10" by simp
    from digit_char_value(2) [OF this] "1.IH" [OF False] False show ?thesis
      by (subst str_nat.simps) simp
  qed
qed

lemma digits_value_snoc: "digits_value (s @ [c]) = 10 * digits_value s + digit_value c"
  by (simp add: digits_value_def)

lemma digits_value_str_nat: "digits_value (str_nat n) = n"
proof (induction n rule: str_nat.induct)
  case (1 n)
  show ?case
  proof (cases "n < 10")
    case True
    then show ?thesis
      using digit_char_value(1) [of n] by (subst str_nat.simps) (simp add: digits_value_def)
  next
    case False
    have "n mod 10 < 10" by simp
    from digit_char_value(1) [OF this] "1.IH" [OF False] False show ?thesis
      by (subst str_nat.simps) (simp add: digits_value_snoc)
  qed
qed

lemma digits_value_zeros: "digits_value (replicate k (CHR ''0'') @ s) = digits_value s"
proof -
  have "foldl (\<lambda>v c. 10 * v + digit_value c) 0 (replicate k (CHR ''0'')) = 0"
    by (induction k) (simp_all add: digit_value_zero)
  then show ?thesis by (simp add: digits_value_def)
qed

lemma hd_str_nat: "0 < n \<Longrightarrow> hd (str_nat n) \<noteq> CHR ''0''"
proof (induction n rule: str_nat.induct)
  case (1 n)
  show ?case
  proof (cases "n < 10")
    case True
    with "1.prems" digit_char_value(3) [of n] show ?thesis
      by (subst str_nat.simps) simp
  next
    case False
    then have "0 < n div 10" by simp
    from "1.IH" [OF False this] False show ?thesis
      by (subst str_nat.simps) (simp add: str_nat_nonempty)
  qed
qed

lemma length_str_nat_small: "n < 10 \<Longrightarrow> length (str_nat n) = 1"
  by (subst str_nat.simps) simp

lemma zero_padded_is_zero_padded:
  assumes "0 < w"
  shows "is_zero_padded w n (zero_padded w n)"
proof -
  have digits: "list_all is_digit (zero_padded w n)"
    using str_nat_is_digits [of n] by (auto simp: zero_padded_def is_digit_zero list_all_iff)
  have val: "digits_value (zero_padded w n) = n"
    by (simp add: zero_padded_def digits_value_zeros digits_value_str_nat)
  have len: "length (zero_padded w n) = w
      \<or> w < length (zero_padded w n) \<and> hd (zero_padded w n) \<noteq> CHR ''0''"
  proof (cases "length (str_nat n) \<le> w")
    case True
    then show ?thesis by (simp add: zero_padded_def)
  next
    case False
    with assms have "1 < length (str_nat n)" by simp
    with length_str_nat_small [of n] have "0 < n" by (cases "n < 10") auto
    from hd_str_nat [OF this] False show ?thesis
      by (simp add: zero_padded_def)
  qed
  from digits val len show ?thesis by (simp add: is_zero_padded_def)
qed

lemma round_half_even_bound: "\<bar>x - of_int (round_half_even x)\<bar> \<le> 1 / 2"
proof -
  define f where "f = \<lfloor>x\<rfloor>"
  have a: "of_int f \<le> x" and b: "x < of_int f + 1"
    unfolding f_def by linarith+
  consider "x - of_int f < 1 / 2" | "1 / 2 < x - of_int f" | "x - of_int f = 1 / 2"
    by linarith
  then show ?thesis
  proof cases
    case 1
    then have "round_half_even x = f"
      by (simp add: round_half_even_def Let_def f_def)
    with a 1 show ?thesis by (simp add: abs_le_iff)
  next
    case 2
    then have "round_half_even x = f + 1"
      by (simp add: round_half_even_def Let_def f_def)
    with b 2 show ?thesis by (simp add: abs_le_iff)
  next
    case 3
    then have "round_half_even x = f \<or> round_half_even x = f + 1"
      by (simp add: round_half_even_def Let_def f_def)
    with 3 show ?thesis by (auto simp: abs_le_iff)
  qed
qed

lemma round_half_even_nonneg: "0 \<le> x \<Longrightarrow> 0 \<le> round_half_even x"
  by (auto simp: round_half_even_def Let_def intro: add_nonneg_nonneg)

lemma four_decimals_format_4f: "four_decimals_of x (format_4f x)"
proof -
  define r where "r = round_half_even (\<bar>x\<bar> * 10000)"
  define n where "n = nat r"
  define whole where "whole = str_nat (n div 10000)"
  define frac where "frac = zero_padded 4 (n mod 10000)"
  have fmt: "format_4f x = (if x < 0 then ''-'' else []) @ whole @ ''.'' @ frac"
    by (simp add: format_4f_def Let_def whole_def frac_def zero_padded_def n_def r_def)
  have nodot: "\<forall>c \<in> set whole. c \<noteq> CHR ''.''"
    using str_nat_digits [of "n div 10000"] by (auto simp: whole_def)
  have tw: "takeWhile (\<lambda>c. c \<noteq> CHR ''.'') (whole @ CHR ''.'' # frac) = whole"
    using nodot by (simp add: takeWhile_append2)
  have "n mod 10000 < 10000" by simp
  from zero_padded_4 [OF this] have len: "length frac = 4"
    by (simp add: frac_def)
  have "0 < (4::nat)" by simp
  from zero_padded_is_zero_padded [OF this, of "n mod 10000"]
  have fd: "list_all is_digit frac" and fv: "digits_value frac = n mod 10000"
    by (simp_all add: frac_def is_zero_padded_def)
  have wd: "list_all is_digit whole" and wv: "digits_value whole = n div 10000"
    and wn: "whole \<noteq> []"
    by (simp_all add: whole_def str_nat_is_digits digits_value_str_nat str_nat_nonempty)
  have "0 \<le> r"
    unfolding r_def by (rule round_half_even_nonneg) simp
  then have nr: "(of_nat n :: rat) = of_int r"
    by (simp add: n_def)
  have "(of_nat n :: rat) = of_nat (n div 10000 * 10000 + n mod 10000)" by simp
  also have "\<dots> = of_nat (n div 10000) * 10000 + of_nat (n mod 10000)"
    by (simp only: of_nat_add of_nat_mult of_nat_numeral)
  finally have split: "of_nat (n div 10000) + of_nat (n mod 10000) / 10000 = (of_int r :: rat) / 10000"
    by (simp add: nr [symmetric] field_simps)
  have "\<bar>\<bar>x\<bar> * 10000 - of_int r\<bar> \<le> 1 / 2"
    unfolding r_def by (rule round_half_even_bound)
  then have bound: "\<bar>\<bar>x\<bar> - of_int r / 10000\<bar> \<le> 1 / 20000"
    by (simp add: abs_le_iff field_simps)
  have num: "\<bar>\<bar>x\<bar> - (of_nat (digits_value whole) + of_nat (digits_value frac) / 10000)\<bar>
      \<le> 1 / 20000"
    using bound by (simp only: wv fv split)
  have body: "(if x < 0 then drop 1 ((if x < 0 then ''-'' else []) @ whole @ ''.'' @ frac)
      else (if x < 0 then ''-'' else []) @ whole @ ''.'' @ frac) = whole @ ''.'' @ frac"
    by simp
  have tw': "takeWhile (\<lambda>c. c \<noteq> CHR ''.'') (whole @ ''.'' @ frac) = whole"
    using tw by simp
  have dr: "drop (Suc (length whole)) (whole @ ''.'' @ frac) = frac"
    by simp
  show ?thesis
    unfolding four_decimals_of_def fmt Let_def body tw' dr
    by (intro conjI refl wn wd len fd num)
qed

lemma checkpoint_path_layout:
  "checkpoint_path n acc cfg =
     checkpoint_file (zfill 4 (str_int n)) (format_4f acc) (format_04d (seed cfg)) (tag cfg)"
  by (simp add: checkpoint_path_def checkpoint_file_def)

lemma path_dir_join:
  assumes "CHR ''/'' \<notin> set rest"
  shows "path_dir (d @ ''/'' @ rest) = d"
proof -
  have "dropWhile (\<lambda>c. c \<noteq> CHR ''/'') (rev rest @ CHR ''/'' # rev d) = CHR ''/'' # rev d"
    using assms by (auto simp: dropWhile_append3)
  then show ?thesis
    by (simp add: path_dir_def)
qed

lemma zero_padded_digits: "set (zero_padded w n) \<subseteq> set ''0123456789''"
  using str_nat_digits [of n] by (auto simp: zero_padded_def)

lemma zero_padded_no_slash: "CHR ''/'' \<notin> set (zero_padded w n)"
  using zero_padded_digits [of w n] by auto

lemma checkpoint_path_dir:
  assumes "CHR ''/'' \<notin> set (tag cfg)" "0 \<le> seed cfg" "0 \<le> n"
  shows "path_dir (checkpoint_path n 1 cfg) = ''checkpoint''"
proof -
  let ?rest = "zero_padded 4 (nat n) @ ''_acc'' @ ''1.0000'' @ ''_seed''
      @ zero_padded 4 (nat (seed cfg)) @ ''_'' @ tag cfg @ ''.pth''"
  have "CHR ''/'' \<notin> set ?rest"
    using assms(1) by (simp add: zero_padded_no_slash)
  from path_dir_join [OF this, of "''checkpoint''"]
  have "path_dir (''checkpoint/'' @ ?rest) = ''checkpoint''" by simp
  moreover have "checkpoint_path n 1 cfg = ''checkpoint/'' @ ?rest"
    using zfill_str_nat [of "nat n"] format_04d_nat [OF assms(2)] assms(3)
    by (simp add: checkpoint_path_def format_4f_one)
  ultimately show ?thesis by simp
qed

lemma save_checkpoint_eq:
  assumes "path_dir (checkpoint_path n acc cfg) = ''checkpoint''"
  shows "save_checkpoint convert sd n acc cfg fs =
           Inr (with_checkpoint (path_name (checkpoint_path n acc cfg)) (save_state convert sd) fs)"
  using assms
  by (cases "fs ''checkpoint''")
     (simp_all add: save_checkpoint_def os_path_isdir_def os_mkdir_def torch_save_def
        write_file_def with_checkpoint_def)

lemma save_checkpoint_run:
  assumes "CHR ''/'' \<notin> set (tag cfg)" "0 \<le> seed cfg" "0 \<le> n"
  shows "save_checkpoint convert sd n 1 cfg fs =
           Inr (with_checkpoint (path_name (checkpoint_path n 1 cfg)) (save_state convert sd) fs)"
  by (rule save_checkpoint_eq [OF checkpoint_path_dir [OF assms]])

text \<open>
  C3. The name \<open>save_checkpoint\<close> gives the file of index \<open>n\<close> and accuracy \<open>acc\<close>, for
  a seed that is not negative, is \<^verbatim>\<open>checkpoint/\<close>, the index \<open>n\<close> zero-padded to 4
  digits, \<^verbatim>\<open>_acc\<close>, \<open>acc\<close> to 4 decimal places, \<^verbatim>\<open>_seed\<close>, the seed zero-padded to 4
  digits, \<^verbatim>\<open>_\<close>, the tag and \<^verbatim>\<open>.pth\<close>. In a run, the \<open>k\<close> checkpoints saved are, in
  order, the files of the indices 0, 1, ..., \<open>k - 1\<close> with the accuracy 1.0 the script
  passes: the index goes up by exactly 1 from a save to the next. Each of these
  files exists at the end of the run, and a run that saves has a seed that is not
  negative (\<open>set_seed\<close> raises on any other before the loop).
\<close>

theorem checkpoint_names:
  "(\<forall>n acc. 0 \<le> seed cfg \<longrightarrow>
      (\<exists>index_text acc_text seed_text.
         checkpoint_path (int n) acc cfg
           = checkpoint_file index_text acc_text seed_text (tag cfg)
         \<and> is_zero_padded 4 n index_text
         \<and> four_decimals_of acc acc_text
         \<and> is_zero_padded 4 (nat (seed cfg)) seed_text))
   \<and> (let st = final_state (finetune convert train_step cfg tb sd fs);
          k = length (saved_paths (trace st))
      in (0 < k \<longrightarrow> 0 \<le> seed cfg)
         \<and> saved_paths (trace st) = map (\<lambda>n. checkpoint_path (int n) 1 cfg) [0..<k]
         \<and> (\<forall>n<k. read_file (files st) (checkpoint_path (int n) 1 cfg) \<noteq> None))"
proof (rule conjI)
  have four: "0 < (4::nat)" by simp
  show "\<forall>n acc. 0 \<le> seed cfg \<longrightarrow>
      (\<exists>index_text acc_text seed_text.
         checkpoint_path (int n) acc cfg
           = checkpoint_file index_text acc_text seed_text (tag cfg)
         \<and> is_zero_padded 4 n index_text
         \<and> four_decimals_of acc acc_text
         \<and> is_zero_padded 4 (nat (seed cfg)) seed_text)"
  proof (intro allI impI)
    fix n acc assume seed: "0 \<le> seed cfg"
    have "checkpoint_path (int n) acc cfg
        = checkpoint_file (zfill 4 (str_int (int n))) (format_4f acc) (format_04d (seed cfg))
            (tag cfg)"
      by (rule checkpoint_path_layout)
    moreover have "is_zero_padded 4 n (zfill 4 (str_int (int n)))"
      unfolding zfill_str_nat by (rule zero_padded_is_zero_padded [OF four])
    moreover have "four_decimals_of acc (format_4f acc)"
      by (rule four_decimals_format_4f)
    moreover have "is_zero_padded 4 (nat (seed cfg)) (format_04d (seed cfg))"
      unfolding format_04d_nat [OF seed] by (rule zero_padded_is_zero_padded [OF four])
    ultimately show "\<exists>index_text acc_text seed_text.
         checkpoint_path (int n) acc cfg
           = checkpoint_file index_text acc_text seed_text (tag cfg)
         \<and> is_zero_padded 4 n index_text
         \<and> four_decimals_of acc acc_text
         \<and> is_zero_padded 4 (nat (seed cfg)) seed_text"
      by blast
  qed
next
  let ?st = "final_state (finetune convert train_step cfg tb sd fs)"
  have inv: "names_inv cfg ?st" by (rule names_inv_finetune)
  then have sp: "saved_paths (trace ?st)
      = map (\<lambda>n. checkpoint_path (int n) 1 cfg) [0..<nat (ckpt_num ?st)]"
    by (simp add: names_inv_def)
  then have k: "length (saved_paths (trace ?st)) = nat (ckpt_num ?st)" by simp
  from inv have rd: "\<forall>p \<in> set (saved_paths (trace ?st)). read_file (files ?st) p \<noteq> None"
    by (simp add: names_inv_def)
  have ex: "\<forall>n<nat (ckpt_num ?st). read_file (files ?st) (checkpoint_path (int n) 1 cfg) \<noteq> None"
  proof (intro allI impI)
    fix n assume "n < nat (ckpt_num ?st)"
    then have "checkpoint_path (int n) 1 cfg \<in> set (saved_paths (trace ?st))"
      unfolding sp by simp
    with rd show "read_file (files ?st) (checkpoint_path (int n) 1 cfg) \<noteq> None" by blast
  qed
  have seed: "0 < nat (ckpt_num ?st) \<longrightarrow> 0 \<le> seed cfg"
  proof (cases "0 \<le> seed cfg \<and> seed cfg \<le> 2 ^ 32 - 1")
    case True
    then show ?thesis by simp
  next
    case False
    then show ?thesis
      by (simp add: finetune_bad_seed [OF False] final_state_def initial_state_def)
  qed
  from sp k ex seed
  show "let st = ?st; k = length (saved_paths (trace st))
      in (0 < k \<longrightarrow> 0 \<le> seed cfg)
         \<and> saved_paths (trace st) = map (\<lambda>n. checkpoint_path (int n) 1 cfg) [0..<k]
         \<and> (\<forall>n<k. read_file (files st) (checkpoint_path (int n) 1 cfg) \<noteq> None)"
    by (simp add: Let_def)
qed

subsection \<open>Example runs\<close>

lemma upt_6: "[0..<6] = [0, 1, 2, 3, 4, 5]"
  by (simp add: upt_rec)

lemma upt_3: "[0..<3] = [0, 1, 2]"
  by (simp add: upt_rec)

lemma upt_4: "[0..<4] = [0, 1, 2, 3]"
  by (simp add: upt_rec)

lemma upt_5: "[0..<5] = [0, 1, 2, 3, 4]"
  by (simp add: upt_rec)

lemma example_config_fields:
  "seed example_config = 40" "tag example_config = ''stl10_resnet18''"
  "total_save_number example_config = 300" "epochs example_config = 1"
  by (simp_all add: example_config_def get_config_def)

lemma example_tag_no_slash: "CHR ''/'' \<notin> set ''stl10_resnet18''"
  by simp

lemma two_saves_fields:
  "seed two_saves_config = 40" "tag two_saves_config = ''stl10_resnet18''"
  "total_save_number two_saves_config = 2"
  by (simp_all add: two_saves_config_def example_config_fields)

lemma two_saves_paths:
  "checkpoint_path 0 1 two_saves_config = ''checkpoint/0000_acc1.0000_seed0040_stl10_resnet18.pth''"
  "checkpoint_path 1 1 two_saves_config = ''checkpoint/0001_acc1.0000_seed0040_stl10_resnet18.pth''"
  by (simp_all add: checkpoint_path_def two_saves_fields format_4f_one)
     (simp_all add: format_eval)

lemma two_saves_save:
  "0 \<le> n \<Longrightarrow> save_checkpoint convert sd n 1 two_saves_config fs =
     Inr (with_checkpoint (path_name (checkpoint_path n 1 two_saves_config))
            (save_state convert sd) fs)"
  by (rule save_checkpoint_run) (simp_all add: two_saves_fields)

lemma two_saves_trace:
  "trace (final_state (finetune example_convert example_trainer two_saves_config 4
      example_state_dict Map.empty))
   = [TrainStep 0 0, TrainStep 0 1, TrainStep 0 2,
      Saved ''checkpoint/0000_acc1.0000_seed0040_stl10_resnet18.pth'',
      TrainStep 0 3,
      Saved ''checkpoint/0001_acc1.0000_seed0040_stl10_resnet18.pth'']"
  by (simp add: finetune_def set_seed_def two_saves_fields upt_6 upt_4 loop_body_unfold
      quota_check_def initial_state_def two_saves_save final_state_def two_saves_paths)

lemma two_saves_halt:
  "final_halt (finetune example_convert example_trainer two_saves_config 4
      example_state_dict Map.empty) = Some (Exit 0)"
  by (simp add: finetune_def set_seed_def two_saves_fields upt_6 upt_4 loop_body_unfold
      quota_check_def initial_state_def two_saves_save final_halt_def)

theorem checkpoint_names_witness:
  "0 \<le> seed two_saves_config
   \<and> 0 < length (saved_paths (trace (final_state
        (finetune example_convert example_trainer two_saves_config 4
           example_state_dict Map.empty))))
   \<and> (1::nat) < length (saved_paths (trace (final_state
        (finetune example_convert example_trainer two_saves_config 4
           example_state_dict Map.empty))))
   \<and> saved_paths (trace (final_state
        (finetune example_convert example_trainer two_saves_config 4
           example_state_dict Map.empty)))
      = [''checkpoint/0000_acc1.0000_seed0040_stl10_resnet18.pth'',
         ''checkpoint/0001_acc1.0000_seed0040_stl10_resnet18.pth'']
   \<and> (\<exists>index_text acc_text seed_text.
         ''checkpoint/0001_acc1.0000_seed0040_stl10_resnet18.pth''
           = checkpoint_file index_text acc_text seed_text ''stl10_resnet18''
         \<and> is_zero_padded 4 1 index_text
         \<and> four_decimals_of 1 acc_text
         \<and> is_zero_padded 4 40 seed_text)
   \<and> read_file (files (final_state
        (finetune example_convert example_trainer two_saves_config 4
           example_state_dict Map.empty)))
        ''checkpoint/0001_acc1.0000_seed0040_stl10_resnet18.pth'' \<noteq> None"
proof -
  let ?st = "final_state (finetune example_convert example_trainer two_saves_config 4
           example_state_dict Map.empty)"
  note inst = checkpoint_names [of two_saves_config example_convert example_trainer 4
      example_state_dict Map.empty]
  have seed: "0 \<le> seed two_saves_config" by (simp add: two_saves_fields)
  have sp: "saved_paths (trace ?st)
      = [''checkpoint/0000_acc1.0000_seed0040_stl10_resnet18.pth'',
         ''checkpoint/0001_acc1.0000_seed0040_stl10_resnet18.pth'']"
    by (simp add: two_saves_trace)
  have k: "length (saved_paths (trace ?st)) = 2"
    unfolding sp by simp
  from inst seed have "\<exists>index_text acc_text seed_text.
         checkpoint_path (int 1) 1 two_saves_config
           = checkpoint_file index_text acc_text seed_text (tag two_saves_config)
         \<and> is_zero_padded 4 1 index_text
         \<and> four_decimals_of 1 acc_text
         \<and> is_zero_padded 4 (nat (seed two_saves_config)) seed_text"
    by blast
  then have layout: "\<exists>index_text acc_text seed_text.
         ''checkpoint/0001_acc1.0000_seed0040_stl10_resnet18.pth''
           = checkpoint_file index_text acc_text seed_text ''stl10_resnet18''
         \<and> is_zero_padded 4 1 index_text
         \<and> four_decimals_of 1 acc_text
         \<and> is_zero_padded 4 40 seed_text"
    by (simp add: two_saves_paths two_saves_fields)
  from inst have every: "\<forall>n<length (saved_paths (trace ?st)).
      read_file (files ?st) (checkpoint_path (int n) 1 two_saves_config) \<noteq> None"
    by (simp add: Let_def)
  have "(1::nat) < length (saved_paths (trace ?st))"
    unfolding k by simp
  with every have "read_file (files ?st) (checkpoint_path (int 1) 1 two_saves_config) \<noteq> None"
    by blast
  then have rd: "read_file (files ?st)
      ''checkpoint/0001_acc1.0000_seed0040_stl10_resnet18.pth'' \<noteq> None"
    by (simp add: two_saves_paths)
  from seed sp k layout rd show ?thesis by simp
qed

subsection \<open>The checkpoint quota\<close>

lemma quota_inv_body:
  assumes "quota_inv cfg st"
  shows "case loop_body convert train_step cfg tb j b st of
           Inl hs \<Rightarrow> quota_halt cfg hs | Inr st' \<Rightarrow> quota_inv cfg st'"
proof (cases "1 < b")
  case False
  with assms show ?thesis
    by (simp add: loop_body_unfold quota_check_def quota_inv_def saved_paths_append)
next
  case True
  show ?thesis
  proof (cases "save_checkpoint convert (train_step j b (model_sd st)) (ckpt_num st) 1 cfg (files st)")
    case (Inl e)
    with True assms show ?thesis
      by (simp add: loop_body_unfold quota_inv_def quota_halt_def saved_paths_append)
  next
    case (Inr fs')
    with True assms show ?thesis
      by (auto simp: loop_body_unfold quota_check_def quota_inv_def quota_halt_def
          saved_paths_append)
  qed
qed

lemma quota_run:
  assumes "0 < total_save_number cfg"
  shows "case outer_loop convert train_step cfg tb js (initial_state sd fs) of
           Inl hs \<Rightarrow> quota_halt cfg hs | Inr st' \<Rightarrow> quota_inv cfg st'"
proof -
  have init: "quota_inv cfg (initial_state sd fs)"
    using assms by (simp add: quota_inv_def initial_state_def)
  show ?thesis
    by (rule outer_loop_rule [where R = "quota_inv cfg" and H = "quota_halt cfg",
          OF quota_inv_body init])
qed

lemma quota_check_body:
  "case loop_body convert train_step cfg tb j b st of
     Inr st' \<Rightarrow> of_int (ckpt_num st') < total_save_number cfg
   | Inl (h, st') \<Rightarrow>
       h = Exit 0 \<and> total_save_number cfg \<le> of_int (ckpt_num st') \<or> (\<exists>e. h = Raised e)"
proof (cases "1 < b")
  case False
  then show ?thesis
    by (simp add: loop_body_unfold quota_check_def)
next
  case True
  then show ?thesis
    by (cases "save_checkpoint convert (train_step j b (model_sd st)) (ckpt_num st) 1 cfg (files st)")
       (simp_all add: loop_body_unfold quota_check_def)
qed

lemma snoc_eq_append:
  "tr @ [x] = pre @ post \<Longrightarrow> post \<noteq> [] \<Longrightarrow> \<exists>post'. post = post' @ [x]"
  by (cases post rule: rev_cases) auto

lemma quota_run_summary:
  fixes convert :: "'v converter" and train_step :: "'v trainer" and cfg tb sd fs q
  assumes q: "total_save_number cfg = of_nat q" and pos: "0 < q"
  defines "r \<equiv> finetune convert train_step cfg tb sd fs"
  shows "ckpt_num (final_state r) = int (length (saved_paths (trace (final_state r))))"
    and "length (saved_paths (trace (final_state r))) \<le> q"
    and "final_halt r = Some (Exit 0) \<longleftrightarrow> length (saved_paths (trace (final_state r))) = q"
    and "final_halt r = Some (Exit 0) \<longrightarrow> (\<exists>tr p. trace (final_state r) = tr @ [Saved p])"
proof -
  have all: "ckpt_num (final_state r) = int (length (saved_paths (trace (final_state r))))
    \<and> length (saved_paths (trace (final_state r))) \<le> q
    \<and> (final_halt r = Some (Exit 0) \<longleftrightarrow> length (saved_paths (trace (final_state r))) = q)
    \<and> (final_halt r = Some (Exit 0) \<longrightarrow> (\<exists>tr p. trace (final_state r) = tr @ [Saved p]))"
  proof (cases "0 \<le> seed cfg \<and> seed cfg \<le> 2 ^ 32 - 1")
    case False
    with pos show ?thesis
      by (simp add: r_def finetune_bad_seed [OF False] final_state_def final_halt_def
          initial_state_def)
  next
    case True
    note run = finetune_good_seed [OF True]
    let ?o = "outer_loop convert train_step cfg tb [0..<6] (initial_state sd fs)"
    have qpos: "0 < total_save_number cfg" using q pos by simp
    note qr = quota_run [OF qpos, of convert train_step tb "[0..<6]" sd fs]
    show ?thesis
    proof (cases ?o)
      case (Inr st)
      with qr have "quota_inv cfg st" by simp
      then have "ckpt_num st = int (length (saved_paths (trace st)))"
        and "(of_nat (length (saved_paths (trace st))) :: rat) < of_nat q"
        by (simp_all add: quota_inv_def q)
      then show ?thesis
        by (simp add: r_def run Inr final_state_def final_halt_def)
    next
      case (Inl hs)
      obtain h st where hs: "hs = (h, st)" by (cases hs)
      from qr Inl have qh: "quota_halt cfg (h, st)" by (simp add: hs)
      show ?thesis
      proof (cases "\<exists>e. h = Raised e")
        case True
        with qh have "ckpt_num st = int (length (saved_paths (trace st)))"
          and "(of_nat (length (saved_paths (trace st))) :: rat) < of_nat q"
          by (auto simp: quota_halt_def q)
        with True show ?thesis
          by (auto simp: r_def run Inl hs final_state_def final_halt_def)
      next
        case False
        with qh have ex: "h = Exit 0"
          and ck: "ckpt_num st = int (length (saved_paths (trace st)))"
          and ge: "(of_nat q :: rat) \<le> of_nat (length (saved_paths (trace st)))"
          and lt: "(of_nat (length (saved_paths (trace st))) :: rat) < of_nat q + 1"
          and last: "\<exists>tr p. trace st = tr @ [Saved p]"
          by (auto simp: quota_halt_def q)
        from ge have "q \<le> length (saved_paths (trace st))" by simp
        moreover from lt have "(of_nat (length (saved_paths (trace st))) :: rat) < of_nat (q + 1)"
          by simp
        then have "length (saved_paths (trace st)) < q + 1"
          unfolding of_nat_less_iff .
        ultimately have "length (saved_paths (trace st)) = q" by simp
        with ex ck last show ?thesis
          by (simp add: r_def run Inl hs final_state_def final_halt_def)
      qed
    qed
  qed
  from all show "ckpt_num (final_state r) = int (length (saved_paths (trace (final_state r))))"
    and "length (saved_paths (trace (final_state r))) \<le> q"
    and "final_halt r = Some (Exit 0) \<longleftrightarrow> length (saved_paths (trace (final_state r))) = q"
    and "final_halt r = Some (Exit 0) \<longrightarrow> (\<exists>tr p. trace (final_state r) = tr @ [Saved p])"
    by blast+
qed

text \<open>
  C1, as amended. For a quota that is a positive integer \<open>q\<close>: every iteration ends
  by comparing \<open>ckpt_num\<close> with the quota, going on only below it and exiting with
  status 0 otherwise; in a run, \<open>ckpt_num\<close> is the number of checkpoints saved, which
  never exceeds \<open>q\<close>; the run exits with status 0 exactly when it has saved \<open>q\<close>
  checkpoints; and as soon as the count reaches \<open>q\<close> (any initial part of the trace
  with \<open>q\<close> saves) nothing follows in the trace, neither a training step nor a save,
  and the script has exited with status 0.
\<close>

theorem quota_respected:
  assumes "total_save_number cfg = of_nat q" and "0 < q"
  shows "(\<forall>j b st. case loop_body convert train_step cfg tb j b st of
            Inr st' \<Rightarrow> of_int (ckpt_num st') < total_save_number cfg
          | Inl (h, st') \<Rightarrow>
              h = Exit 0 \<and> total_save_number cfg \<le> of_int (ckpt_num st')
              \<or> (\<exists>e. h = Raised e))
       \<and> (let r = finetune convert train_step cfg tb sd fs; st = final_state r
          in ckpt_num st = int (length (saved_paths (trace st)))
             \<and> length (saved_paths (trace st)) \<le> q
             \<and> (final_halt r = Some (Exit 0) \<longleftrightarrow> length (saved_paths (trace st)) = q)
             \<and> (\<forall>pre post. trace st = pre @ post \<and> q \<le> length (saved_paths pre)
                  \<longrightarrow> post = [] \<and> final_halt r = Some (Exit 0)))"
proof (rule conjI)
  show "\<forall>j b st. case loop_body convert train_step cfg tb j b st of
            Inr st' \<Rightarrow> of_int (ckpt_num st') < total_save_number cfg
          | Inl (h, st') \<Rightarrow>
              h = Exit 0 \<and> total_save_number cfg \<le> of_int (ckpt_num st')
              \<or> (\<exists>e. h = Raised e)"
    by (intro allI quota_check_body)
next
  let ?r = "finetune convert train_step cfg tb sd fs"
  let ?st = "final_state ?r"
  note s = quota_run_summary [where convert = convert and train_step = train_step
      and tb = tb and sd = sd and fs = fs, OF assms]
  have stop: "post = [] \<and> final_halt ?r = Some (Exit 0)"
    if dec: "trace ?st = pre @ post" and cnt: "q \<le> length (saved_paths pre)" for pre post
  proof -
    have len: "length (saved_paths (trace ?st))
        = length (saved_paths pre) + length (saved_paths post)"
      unfolding dec by (simp add: saved_paths_append)
    with cnt s(2) have eq: "length (saved_paths (trace ?st)) = q"
      and none: "\<not> 0 < length (saved_paths post)"
      by linarith+
    from eq s(3) have ex: "final_halt ?r = Some (Exit 0)" by simp
    with s(4) obtain tr p where tr: "trace ?st = tr @ [Saved p]" by blast
    have "post = []"
    proof (rule ccontr)
      assume ne: "post \<noteq> []"
      from tr dec have "tr @ [Saved p] = pre @ post" by simp
      from snoc_eq_append [OF this ne] obtain post' where "post = post' @ [Saved p]" by blast
      then have "0 < length (saved_paths post)"
        by (simp add: saved_paths_append)
      with none show False by blast
    qed
    with ex show ?thesis by simp
  qed
  from s(1) s(2) s(3) stop
  show "let r = ?r; st = final_state r
          in ckpt_num st = int (length (saved_paths (trace st)))
             \<and> length (saved_paths (trace st)) \<le> q
             \<and> (final_halt r = Some (Exit 0) \<longleftrightarrow> length (saved_paths (trace st)) = q)
             \<and> (\<forall>pre post. trace st = pre @ post \<and> q \<le> length (saved_paths pre)
                  \<longrightarrow> post = [] \<and> final_halt r = Some (Exit 0))"
    unfolding Let_def by blast
qed

theorem quota_respected_witness:
  "total_save_number two_saves_config = of_nat 2 \<and> (0::nat) < 2
   \<and> trace (final_state (finetune example_convert example_trainer two_saves_config 4
        example_state_dict Map.empty))
      = [TrainStep 0 0, TrainStep 0 1, TrainStep 0 2,
         Saved ''checkpoint/0000_acc1.0000_seed0040_stl10_resnet18.pth'',
         TrainStep 0 3,
         Saved ''checkpoint/0001_acc1.0000_seed0040_stl10_resnet18.pth''] @ []
   \<and> 2 \<le> length (saved_paths
        [TrainStep 0 0, TrainStep 0 1, TrainStep 0 2,
         Saved ''checkpoint/0000_acc1.0000_seed0040_stl10_resnet18.pth'',
         TrainStep 0 3,
         Saved ''checkpoint/0001_acc1.0000_seed0040_stl10_resnet18.pth''])
   \<and> final_halt (finetune example_convert example_trainer two_saves_config 4
        example_state_dict Map.empty) = Some (Exit 0)
   \<and> ckpt_num (final_state (finetune example_convert example_trainer two_saves_config 4
        example_state_dict Map.empty)) = 2"
proof -
  let ?r = "finetune example_convert example_trainer two_saves_config 4
        example_state_dict Map.empty"
  let ?tr = "[TrainStep 0 0, TrainStep 0 1, TrainStep 0 2,
         Saved ''checkpoint/0000_acc1.0000_seed0040_stl10_resnet18.pth'',
         TrainStep 0 3,
         Saved ''checkpoint/0001_acc1.0000_seed0040_stl10_resnet18.pth'']"
  have q: "total_save_number two_saves_config = of_nat 2"
    by (simp add: two_saves_fields)
  have pos: "(0::nat) < 2" by simp
  note inst = quota_respected [OF q pos, of example_convert example_trainer 4
      example_state_dict Map.empty, unfolded Let_def]
  have tr: "trace (final_state ?r) = ?tr @ []"
    by (simp add: two_saves_trace)
  have cnt: "2 \<le> length (saved_paths ?tr)" by simp
  from inst have stop: "\<And>pre post. trace (final_state ?r) = pre @ post
      \<Longrightarrow> 2 \<le> length (saved_paths pre) \<Longrightarrow> final_halt ?r = Some (Exit 0)"
    by blast
  have halt: "final_halt ?r = Some (Exit 0)"
    by (rule stop [OF tr cnt])
  from inst have "ckpt_num (final_state ?r) = int (length (saved_paths (trace (final_state ?r))))"
    by blast
  then have ck: "ckpt_num (final_state ?r) = 2"
    by (simp add: two_saves_trace)
  from q pos tr cnt halt ck show ?thesis by blast
qed

lemma negative_quota_fields:
  "seed negative_quota_config = 40" "tag negative_quota_config = ''stl10_resnet18''"
  "total_save_number negative_quota_config = - 1"
  by (simp_all add: negative_quota_config_def example_config_fields)

lemma zero_quota_fields:
  "seed zero_quota_config = 40" "tag zero_quota_config = ''stl10_resnet18''"
  "total_save_number zero_quota_config = 0"
  by (simp_all add: zero_quota_config_def example_config_fields)

lemma fractional_quota_fields:
  "seed fractional_quota_config = 40" "tag fractional_quota_config = ''stl10_resnet18''"
  "total_save_number fractional_quota_config = 5 / 2"
  by (simp_all add: fractional_quota_config_def example_config_fields)

lemma negative_run_trace:
  "trace (final_state (finetune example_convert example_trainer negative_quota_config 3
      example_state_dict Map.empty)) = [TrainStep 0 0]"
  by (simp add: finetune_def set_seed_def negative_quota_fields upt_6 upt_3 loop_body_unfold
      quota_check_def initial_state_def final_state_def)

lemma zero_run_trace:
  "trace (final_state (finetune example_convert example_trainer zero_quota_config 3
      example_state_dict Map.empty)) = [TrainStep 0 0]"
  by (simp add: finetune_def set_seed_def zero_quota_fields upt_6 upt_3 loop_body_unfold
      quota_check_def initial_state_def final_state_def)

lemma fractional_save:
  "0 \<le> n \<Longrightarrow> save_checkpoint convert sd n 1 fractional_quota_config fs =
     Inr (with_checkpoint (path_name (checkpoint_path n 1 fractional_quota_config))
            (save_state convert sd) fs)"
  by (rule save_checkpoint_run) (simp_all add: fractional_quota_fields)

lemma fractional_run_saves:
  "length (saved_paths (trace (final_state (finetune example_convert example_trainer
      fractional_quota_config 5 example_state_dict Map.empty)))) = 3"
  by (simp add: finetune_def set_seed_def fractional_quota_fields upt_6 upt_5 loop_body_unfold
      quota_check_def initial_state_def fractional_save final_state_def)

text \<open>
  C1 as stated fails outside the positive integers. With \<^verbatim>\<open>total_save_number = -1\<close>
  the run saves 0 checkpoints, which exceeds the quota. With
  \<^verbatim>\<open>total_save_number = 2.5\<close> the run saves 3 checkpoints, which exceeds the quota.
  With \<^verbatim>\<open>total_save_number = 0\<close> the count of saved checkpoints equals the quota from
  the start, and the run still performs a training step before it exits.
\<close>

theorem quota_exceeded_counterexample:
  "\<not> of_nat (length (saved_paths (trace (final_state
        (finetune example_convert example_trainer negative_quota_config 3
           example_state_dict Map.empty)))))
      \<le> total_save_number negative_quota_config
   \<and> \<not> of_nat (length (saved_paths (trace (final_state
        (finetune example_convert example_trainer fractional_quota_config 5
           example_state_dict Map.empty)))))
      \<le> total_save_number fractional_quota_config
   \<and> of_int (ckpt_num (initial_state example_state_dict Map.empty))
        = total_save_number zero_quota_config
   \<and> trace (final_state (finetune example_convert example_trainer zero_quota_config 3
        example_state_dict Map.empty)) = [TrainStep 0 0]"
  by (simp add: negative_run_trace negative_quota_fields fractional_run_saves
      fractional_quota_fields zero_run_trace zero_quota_fields initial_state_def)

subsection \<open>Saves and batches\<close>

lemma train_steps_append: "train_steps (xs @ ys) = train_steps xs @ train_steps ys"
  by (induction xs rule: train_steps.induct) simp_all

lemma train_steps_body:
  "train_steps (trace (final_state (loop_body convert train_step cfg tb j b st)))
     = train_steps (trace st) @ [(j, b)]"
  by (simp add: loop_body_unfold quota_check_def final_state_def train_steps_append
      split: sum.splits)

lemma train_steps_inner:
  "case inner_loop convert train_step cfg tb j bs st of
     Inr st' \<Rightarrow> train_steps (trace st') = train_steps (trace st) @ map (Pair j) bs
   | Inl hs \<Rightarrow> \<exists>ys. prefix ys (map (Pair j) bs)
              \<and> train_steps (trace (snd hs)) = train_steps (trace st) @ ys"
proof (induction bs arbitrary: st)
  case Nil
  then show ?case by simp
next
  case (Cons b bs)
  note body = train_steps_body [of convert train_step cfg tb j b st]
  show ?case
  proof (cases "loop_body convert train_step cfg tb j b st")
    case (Inl hs)
    with body have "train_steps (trace (snd hs)) = train_steps (trace st) @ [(j, b)]"
      by (simp add: final_state_def case_prod_beta)
    moreover have "prefix [(j, b)] (map (Pair j) (b # bs))" by simp
    ultimately show ?thesis
      unfolding inner_loop.simps Inl by (simp; blast)
  next
    case (Inr st')
    with body have st': "train_steps (trace st') = train_steps (trace st) @ [(j, b)]"
      by (simp add: final_state_def)
    show ?thesis
    proof (cases "inner_loop convert train_step cfg tb j bs st'")
      case inner: (Inr st'')
      with Cons.IH [of st'] st' Inr show ?thesis by simp
    next
      case inner: (Inl hs)
      with Cons.IH [of st'] obtain ys where "prefix ys (map (Pair j) bs)"
        and "train_steps (trace (snd hs)) = train_steps (trace st') @ ys"
        by auto
      then have "prefix ((j, b) # ys) (map (Pair j) (b # bs))"
        and "train_steps (trace (snd hs)) = train_steps (trace st) @ (j, b) # ys"
        by (simp_all add: st')
      then show ?thesis
        unfolding inner_loop.simps Inr using inner by (simp; blast)
    qed
  qed
qed

lemma train_steps_outer:
  "case outer_loop convert train_step cfg tb js st of
     Inr st' \<Rightarrow> train_steps (trace st')
        = train_steps (trace st) @ concat (map (\<lambda>j. map (Pair j) [0..<tb]) js)
   | Inl hs \<Rightarrow> \<exists>ys. prefix ys (concat (map (\<lambda>j. map (Pair j) [0..<tb]) js))
              \<and> train_steps (trace (snd hs)) = train_steps (trace st) @ ys"
proof (induction js arbitrary: st)
  case Nil
  then show ?case by simp
next
  case (Cons j js)
  let ?rest = "concat (map (\<lambda>j. map (Pair j) [0..<tb]) js)"
  note inner = train_steps_inner [where convert = convert and train_step = train_step
      and cfg = cfg and tb = tb and j = j and bs = "[0..<tb]" and st = st]
  show ?case
  proof (cases "inner_loop convert train_step cfg tb j [0..<tb] st")
    case (Inl hs)
    with inner obtain ys where ys: "prefix ys (map (Pair j) [0..<tb])"
      and ts: "train_steps (trace (snd hs)) = train_steps (trace st) @ ys"
      by auto
    from ys have "prefix ys (map (Pair j) [0..<tb] @ ?rest)"
      by (rule prefix_prefix)
    with ts show ?thesis
      unfolding outer_loop.simps Inl by (simp; blast)
  next
    case (Inr st')
    with inner have st': "train_steps (trace st')
        = train_steps (trace st) @ map (Pair j) [0..<tb]"
      by simp
    show ?thesis
    proof (cases "outer_loop convert train_step cfg tb js st'")
      case outer: (Inr st'')
      with Cons.IH [of st'] st' Inr show ?thesis by simp
    next
      case outer: (Inl hs)
      with Cons.IH [of st'] obtain ys where "prefix ys ?rest"
        and "train_steps (trace (snd hs)) = train_steps (trace st') @ ys"
        by auto
      then have "prefix (map (Pair j) [0..<tb] @ ys) (map (Pair j) [0..<tb] @ ?rest)"
        and "train_steps (trace (snd hs))
          = train_steps (trace st) @ map (Pair j) [0..<tb] @ ys"
        by (simp_all add: st')
      then show ?thesis
        unfolding outer_loop.simps Inr using outer by (simp; blast)
    qed
  qed
qed

lemma train_steps_finetune:
  "prefix (train_steps (trace (final_state (finetune convert train_step cfg tb sd fs))))
     (all_batches tb)"
  "final_halt (finetune convert train_step cfg tb sd fs) = None \<Longrightarrow>
     train_steps (trace (final_state (finetune convert train_step cfg tb sd fs)))
       = all_batches tb"
proof -
  let ?r = "finetune convert train_step cfg tb sd fs"
  have both: "prefix (train_steps (trace (final_state ?r))) (all_batches tb)
      \<and> (final_halt ?r = None \<longrightarrow> train_steps (trace (final_state ?r)) = all_batches tb)"
  proof (cases "0 \<le> seed cfg \<and> seed cfg \<le> 2 ^ 32 - 1")
    case False
    show ?thesis
      by (simp add: finetune_bad_seed [OF False] final_state_def final_halt_def
          initial_state_def)
  next
    case True
    note run = finetune_good_seed [OF True]
    note outer = train_steps_outer [where convert = convert and train_step = train_step
        and cfg = cfg and tb = tb and js = "[0..<6]" and st = "initial_state sd fs"]
    show ?thesis
    proof (cases "outer_loop convert train_step cfg tb [0..<6] (initial_state sd fs)")
      case (Inr st)
      with outer show ?thesis
        by (simp add: run final_state_def final_halt_def initial_state_def all_batches_def)
    next
      case (Inl hs)
      with outer show ?thesis
        by (auto simp: run final_state_def final_halt_def initial_state_def all_batches_def
            case_prod_beta)
    qed
  qed
  from both show "prefix (train_steps (trace (final_state ?r))) (all_batches tb)" by blast
  from both show "final_halt ?r = None \<Longrightarrow> train_steps (trace (final_state ?r)) = all_batches tb"
    by blast
qed

lemma snoc_eq_decomp:
  "tr @ [x] = pre @ y # post \<longleftrightarrow>
     (post = [] \<and> pre = tr \<and> x = y) \<or> (\<exists>post'. post = post' @ [x] \<and> tr = pre @ y # post')"
  by (cases post rule: rev_cases) auto

lemma iterations_body:
  assumes "iterations (trace st)"
  shows "case loop_body convert train_step cfg tb j b st of
           Inl hs \<Rightarrow> iterations_halt hs | Inr st' \<Rightarrow> iterations (trace st')"
proof (cases "1 < b")
  case False
  then have "b \<le> 1" by simp
  from iterations.train [OF assms this] show ?thesis
    using False by (simp add: loop_body_unfold quota_check_def iterations_halt_def)
next
  case True
  show ?thesis
  proof (cases "save_checkpoint convert (train_step j b (model_sd st)) (ckpt_num st) 1 cfg (files st)")
    case (Inl e)
    with True assms show ?thesis
      by (auto simp: loop_body_unfold iterations_halt_def)
  next
    case (Inr fs')
    from iterations.train_save [OF assms True] True Inr show ?thesis
      by (simp add: loop_body_unfold quota_check_def iterations_halt_def)
  qed
qed

lemma iterations_train_saved:
  assumes "iterations tr" "tr = pre @ TrainStep j b # post" "1 < b"
  shows "\<exists>p post'. post = Saved p # post'"
  using assms
proof (induction arbitrary: post rule: iterations.induct)
  case none
  then show ?case by simp
next
  case (train tr b' j')
  from train.prems(1) have
    "(post = [] \<and> pre = tr \<and> TrainStep j' b' = TrainStep j b)
      \<or> (\<exists>post'. post = post' @ [TrainStep j' b'] \<and> tr = pre @ TrainStep j b # post')"
    by (simp add: snoc_eq_decomp)
  then show ?case
  proof
    assume "post = [] \<and> pre = tr \<and> TrainStep j' b' = TrainStep j b"
    with train.hyps train.prems show ?thesis by simp
  next
    assume "\<exists>post'. post = post' @ [TrainStep j' b'] \<and> tr = pre @ TrainStep j b # post'"
    then obtain post' where post: "post = post' @ [TrainStep j' b']"
      and tr: "tr = pre @ TrainStep j b # post'" by blast
    from train.IH [OF tr train.prems(2)] post show ?thesis by auto
  qed
next
  case (train_save tr b' j' p')
  from train_save.prems(1) have "(tr @ [TrainStep j' b']) @ [Saved p'] = pre @ TrainStep j b # post"
    by simp
  then obtain post' where post: "post = post' @ [Saved p']"
    and tr': "tr @ [TrainStep j' b'] = pre @ TrainStep j b # post'"
    unfolding snoc_eq_decomp by auto
  from tr' have
    "(post' = [] \<and> pre = tr \<and> TrainStep j' b' = TrainStep j b)
      \<or> (\<exists>post''. post' = post'' @ [TrainStep j' b'] \<and> tr = pre @ TrainStep j b # post'')"
    by (simp add: snoc_eq_decomp)
  then show ?case
  proof
    assume "post' = [] \<and> pre = tr \<and> TrainStep j' b' = TrainStep j b"
    with post show ?thesis by simp
  next
    assume "\<exists>post''. post' = post'' @ [TrainStep j' b'] \<and> tr = pre @ TrainStep j b # post''"
    then obtain post'' where post': "post' = post'' @ [TrainStep j' b']"
      and tr: "tr = pre @ TrainStep j b # post''" by blast
    from train_save.IH [OF tr train_save.prems(2)] post post' show ?thesis by auto
  qed
qed

lemma iterations_saved_after_train:
  assumes "iterations tr" "tr = pre @ Saved p # post"
  shows "\<exists>pre' j b. pre = pre' @ [TrainStep j b] \<and> 1 < b"
  using assms
proof (induction arbitrary: post rule: iterations.induct)
  case none
  then show ?case by simp
next
  case (train tr b' j')
  from train.prems have "\<exists>post'. post = post' @ [TrainStep j' b'] \<and> tr = pre @ Saved p # post'"
    by (simp add: snoc_eq_decomp)
  with train.IH show ?case by blast
next
  case (train_save tr b' j' p')
  from train_save.prems have "(tr @ [TrainStep j' b']) @ [Saved p'] = pre @ Saved p # post"
    by simp
  then have "(post = [] \<and> pre = tr @ [TrainStep j' b'])
      \<or> (\<exists>post'. post = post' @ [Saved p'] \<and> tr @ [TrainStep j' b'] = pre @ Saved p # post')"
    unfolding snoc_eq_decomp by auto
  then show ?case
  proof
    assume "post = [] \<and> pre = tr @ [TrainStep j' b']"
    with train_save.hyps show ?thesis by blast
  next
    assume "\<exists>post'. post = post' @ [Saved p'] \<and> tr @ [TrainStep j' b'] = pre @ Saved p # post'"
    then obtain post' where "tr @ [TrainStep j' b'] = pre @ Saved p # post'" by blast
    then have "\<exists>post''. tr = pre @ Saved p # post''"
      by (auto simp: snoc_eq_decomp)
    with train_save.IH show ?thesis by blast
  qed
qed

lemma iterations_finetune:
  "case finetune convert train_step cfg tb sd fs of
     Inl hs \<Rightarrow> iterations_halt hs | Inr st \<Rightarrow> iterations (trace st)"
proof (cases "0 \<le> seed cfg \<and> seed cfg \<le> 2 ^ 32 - 1")
  case False
  show ?thesis
    unfolding finetune_bad_seed [OF False]
    by (simp add: iterations_halt_def initial_state_def iterations.none)
next
  case True
  have init: "iterations (trace (initial_state sd fs))"
    by (simp add: initial_state_def iterations.none)
  show ?thesis
    unfolding finetune_good_seed [OF True]
    by (rule outer_loop_rule [where R = "\<lambda>st. iterations (trace st)" and H = iterations_halt,
          OF iterations_body init])
qed

lemma trace_iterations:
  "(\<forall>pre j b post.
      trace (final_state (finetune convert train_step cfg tb sd fs)) = pre @ TrainStep j b # post
      \<and> 1 < b
      \<longrightarrow> (\<exists>p post'. post = Saved p # post')
          \<or> (post = [] \<and> (\<exists>e. final_halt (finetune convert train_step cfg tb sd fs)
                                   = Some (Raised e))))
   \<and> (\<forall>pre p post.
        trace (final_state (finetune convert train_step cfg tb sd fs)) = pre @ Saved p # post
        \<longrightarrow> (\<exists>pre' j b. pre = pre' @ [TrainStep j b] \<and> 1 < b))"
proof (cases "finetune convert train_step cfg tb sd fs")
  case (Inr st)
  with iterations_finetune [of convert train_step cfg tb sd fs]
  have it: "iterations (trace st)" by simp
  from iterations_train_saved [OF it] iterations_saved_after_train [OF it]
  show ?thesis
    unfolding Inr by (simp add: final_state_def; blast)
next
  case (Inl hs)
  obtain h st where hs: "hs = (h, st)" by (cases hs)
  from iterations_finetune [of convert train_step cfg tb sd fs] Inl
  have ih: "iterations_halt (h, st)" by (simp add: hs)
  show ?thesis
  proof (cases "iterations (trace st)")
    case True
    from iterations_train_saved [OF True] iterations_saved_after_train [OF True]
    show ?thesis
      unfolding Inl hs by (simp add: final_state_def; blast)
  next
    case False
    with ih obtain e tr j0 b0 where h: "h = Raised e"
      and tr: "trace st = tr @ [TrainStep j0 b0]" and it: "iterations tr"
      by (auto simp: iterations_halt_def)
    have one: "(\<exists>p post'. post = Saved p # post') \<or> post = []"
      if "trace st = pre @ TrainStep j b # post" "1 < b" for pre j b post
    proof -
      from that(1) have "(post = [] \<and> pre = tr \<and> TrainStep j0 b0 = TrainStep j b)
          \<or> (\<exists>post'. post = post' @ [TrainStep j0 b0] \<and> tr = pre @ TrainStep j b # post')"
        unfolding tr by (simp add: snoc_eq_decomp)
      then show ?thesis
      proof
        assume "post = [] \<and> pre = tr \<and> TrainStep j0 b0 = TrainStep j b"
        then show ?thesis by simp
      next
        assume "\<exists>post'. post = post' @ [TrainStep j0 b0] \<and> tr = pre @ TrainStep j b # post'"
        then obtain post' where post: "post = post' @ [TrainStep j0 b0]"
          and "tr = pre @ TrainStep j b # post'" by blast
        from iterations_train_saved [OF it this(2) that(2)] post show ?thesis by auto
      qed
    qed
    have two: "\<exists>pre' j b. pre = pre' @ [TrainStep j b] \<and> 1 < b"
      if "trace st = pre @ Saved p # post" for pre p post
    proof -
      from that have "\<exists>post'. tr = pre @ Saved p # post'"
        unfolding tr by (auto simp: snoc_eq_decomp)
      with iterations_saved_after_train [OF it] show ?thesis by blast
    qed
    from one two show ?thesis
      unfolding Inl hs h by (simp add: final_state_def final_halt_def; blast)
  qed
qed

lemma saved_files_finetune:
  assumes "trace (final_state (finetune convert train_step cfg tb sd fs))
      = pre @ TrainStep j b # Saved p # post"
  shows "read_file (files (final_state (finetune convert train_step cfg tb sd fs))) p \<noteq> None"
proof -
  let ?st = "final_state (finetune convert train_step cfg tb sd fs)"
  have "names_inv cfg ?st" by (rule names_inv_finetune)
  then have "\<forall>p \<in> set (saved_paths (trace ?st)). read_file (files ?st) p \<noteq> None"
    by (simp add: names_inv_def)
  moreover have "p \<in> set (saved_paths (trace ?st))"
    unfolding assms by (simp add: saved_paths_append)
  ultimately show ?thesis by blast
qed

text \<open>
  C6. An iteration on a batch of index 0 or 1 trains and saves nothing: the files and
  the count are as before. An iteration on a batch of index above 1 trains and then
  calls \<open>save_checkpoint\<close> on the trained model with the index \<open>ckpt_num\<close>: if that call
  raises, the script ends there; otherwise the trace gains the training step followed
  by the save, the count goes up by one, and the file of that name holds the selected
  entries of the trained state dict. In a run, the batches trained on are an initial
  part of all the batches of the six passes in order, and all of them when the run
  reaches the end of the script (when the quota has not stopped it); each training
  step on a batch of index above 1 is followed at once by a save whose file exists at
  the end of the run (unless that save raised, which ends the run), and each save
  comes at once after such a training step: none is made for the batches 0 and 1 of
  a pass.
\<close>

theorem saves_follow_batches:
  "(\<forall>j b st. b \<le> 1 \<longrightarrow>
      (let st' = final_state (loop_body convert train_step cfg tb j b st)
       in trace st' = trace st @ [TrainStep j b]
          \<and> files st' = files st \<and> ckpt_num st' = ckpt_num st))
   \<and> (\<forall>j b st. 1 < b \<longrightarrow>
        (case save_checkpoint convert (train_step j b (model_sd st)) (ckpt_num st) 1 cfg
                (files st) of
           Inl e \<Rightarrow>
             loop_body convert train_step cfg tb j b st
               = Inl (Raised e, st\<lparr>model_sd := train_step j b (model_sd st),
                                    trace := trace st @ [TrainStep j b]\<rparr>)
         | Inr fs' \<Rightarrow>
             (let st' = final_state (loop_body convert train_step cfg tb j b st)
              in trace st' = trace st
                     @ [TrainStep j b, Saved (checkpoint_path (ckpt_num st) 1 cfg)]
                 \<and> files st' = fs' \<and> ckpt_num st' = ckpt_num st + 1
                 \<and> read_file fs' (checkpoint_path (ckpt_num st) 1 cfg)
                     = Some (save_state convert (train_step j b (model_sd st))))))
   \<and> (let r = finetune convert train_step cfg tb sd fs; st = final_state r
      in prefix (train_steps (trace st)) (all_batches tb)
         \<and> (final_halt r = None \<longrightarrow> train_steps (trace st) = all_batches tb)
         \<and> (\<forall>pre j b post. trace st = pre @ TrainStep j b # post \<and> 1 < b
              \<longrightarrow> (\<exists>p post'. post = Saved p # post' \<and> read_file (files st) p \<noteq> None)
                  \<or> (post = [] \<and> (\<exists>e. final_halt r = Some (Raised e))))
         \<and> (\<forall>pre p post. trace st = pre @ Saved p # post
              \<longrightarrow> (\<exists>pre' j b. pre = pre' @ [TrainStep j b] \<and> 1 < b)))"
proof (intro conjI)
  show "\<forall>j b st. b \<le> 1 \<longrightarrow>
      (let st' = final_state (loop_body convert train_step cfg tb j b st)
       in trace st' = trace st @ [TrainStep j b]
          \<and> files st' = files st \<and> ckpt_num st' = ckpt_num st)"
    by (simp add: loop_body_unfold quota_check_def final_state_def Let_def)
next
  show "\<forall>j b st. 1 < b \<longrightarrow>
        (case save_checkpoint convert (train_step j b (model_sd st)) (ckpt_num st) 1 cfg
                (files st) of
           Inl e \<Rightarrow>
             loop_body convert train_step cfg tb j b st
               = Inl (Raised e, st\<lparr>model_sd := train_step j b (model_sd st),
                                    trace := trace st @ [TrainStep j b]\<rparr>)
         | Inr fs' \<Rightarrow>
             (let st' = final_state (loop_body convert train_step cfg tb j b st)
              in trace st' = trace st
                     @ [TrainStep j b, Saved (checkpoint_path (ckpt_num st) 1 cfg)]
                 \<and> files st' = fs' \<and> ckpt_num st' = ckpt_num st + 1
                 \<and> read_file fs' (checkpoint_path (ckpt_num st) 1 cfg)
                     = Some (save_state convert (train_step j b (model_sd st)))))"
  proof (intro allI impI)
    fix j b st assume b: "(1::nat) < b"
    show "case save_checkpoint convert (train_step j b (model_sd st)) (ckpt_num st) 1 cfg
                (files st) of
           Inl e \<Rightarrow>
             loop_body convert train_step cfg tb j b st
               = Inl (Raised e, st\<lparr>model_sd := train_step j b (model_sd st),
                                    trace := trace st @ [TrainStep j b]\<rparr>)
         | Inr fs' \<Rightarrow>
             (let st' = final_state (loop_body convert train_step cfg tb j b st)
              in trace st' = trace st
                     @ [TrainStep j b, Saved (checkpoint_path (ckpt_num st) 1 cfg)]
                 \<and> files st' = fs' \<and> ckpt_num st' = ckpt_num st + 1
                 \<and> read_file fs' (checkpoint_path (ckpt_num st) 1 cfg)
                     = Some (save_state convert (train_step j b (model_sd st))))"
    proof (cases "save_checkpoint convert (train_step j b (model_sd st)) (ckpt_num st) 1 cfg
                (files st)")
      case (Inl e)
      with b show ?thesis by (simp add: loop_body_unfold)
    next
      case (Inr fs')
      from save_checkpoint_read [OF Inr] b Inr show ?thesis
        by (simp add: loop_body_unfold quota_check_def final_state_def Let_def)
    qed
  qed
next
  let ?r = "finetune convert train_step cfg tb sd fs"
  let ?st = "final_state ?r"
  note ts = train_steps_finetune [of convert train_step cfg tb sd fs]
  note it = trace_iterations [of convert train_step cfg tb sd fs]
  have follow: "(\<exists>p post'. post = Saved p # post' \<and> read_file (files ?st) p \<noteq> None)
                  \<or> (post = [] \<and> (\<exists>e. final_halt ?r = Some (Raised e)))"
    if dec: "trace ?st = pre @ TrainStep j b # post" and b: "1 < b" for pre j b post
  proof -
    from it dec b have "(\<exists>p post'. post = Saved p # post')
        \<or> (post = [] \<and> (\<exists>e. final_halt ?r = Some (Raised e)))"
      by blast
    then show ?thesis
    proof
      assume "\<exists>p post'. post = Saved p # post'"
      then obtain p post' where post: "post = Saved p # post'" by blast
      with dec have "trace ?st = pre @ TrainStep j b # Saved p # post'" by simp
      from saved_files_finetune [OF this] post show ?thesis by blast
    next
      assume "post = [] \<and> (\<exists>e. final_halt ?r = Some (Raised e))"
      then show ?thesis by blast
    qed
  qed
  from it have before: "\<And>pre p post. trace ?st = pre @ Saved p # post
      \<Longrightarrow> \<exists>pre' j b. pre = pre' @ [TrainStep j b] \<and> 1 < b"
    by blast
  from ts(1) ts(2) follow before
  show "let r = ?r; st = final_state r
      in prefix (train_steps (trace st)) (all_batches tb)
         \<and> (final_halt r = None \<longrightarrow> train_steps (trace st) = all_batches tb)
         \<and> (\<forall>pre j b post. trace st = pre @ TrainStep j b # post \<and> 1 < b
              \<longrightarrow> (\<exists>p post'. post = Saved p # post' \<and> read_file (files st) p \<noteq> None)
                  \<or> (post = [] \<and> (\<exists>e. final_halt r = Some (Raised e))))
         \<and> (\<forall>pre p post. trace st = pre @ Saved p # post
              \<longrightarrow> (\<exists>pre' j b. pre = pre' @ [TrainStep j b] \<and> 1 < b))"
    unfolding Let_def by blast
qed

lemma example_path_0:
  "checkpoint_path 0 1 example_config = ''checkpoint/0000_acc1.0000_seed0040_stl10_resnet18.pth''"
  by (simp add: checkpoint_path_def example_config_fields format_4f_one)
     (simp add: format_eval)

lemma example_save:
  "0 \<le> n \<Longrightarrow> save_checkpoint convert sd n 1 example_config fs =
     Inr (with_checkpoint (path_name (checkpoint_path n 1 example_config))
            (save_state convert sd) fs)"
  by (rule save_checkpoint_run) (simp_all add: example_config_fields)

lemma example_run_trace:
  "trace (final_state (finetune example_convert example_trainer example_config 3
      example_state_dict Map.empty))
   = [TrainStep 0 0, TrainStep 0 1, TrainStep 0 2,
      Saved ''checkpoint/0000_acc1.0000_seed0040_stl10_resnet18.pth'']
     @ concat (map (\<lambda>j. [TrainStep j 0, TrainStep j 1, TrainStep j 2,
                           Saved (checkpoint_path (int j) 1 example_config)])
         [1, 2, 3, 4, 5])"
  by (simp add: finetune_def set_seed_def example_config_fields upt_6 upt_3 loop_body_unfold
      quota_check_def initial_state_def example_save final_state_def example_path_0)

lemma example_run_halt:
  "final_halt (finetune example_convert example_trainer example_config 3
      example_state_dict Map.empty) = None"
  by (simp add: finetune_def set_seed_def example_config_fields upt_6 upt_3 loop_body_unfold
      quota_check_def initial_state_def example_save final_halt_def)

theorem saves_follow_batches_witness:
  "(0::nat) \<le> 1
   \<and> trace (final_state (loop_body example_convert example_trainer example_config 3 0 0
        (initial_state example_state_dict Map.empty))) = [TrainStep 0 0]
   \<and> (1::nat) < 2
   \<and> read_file (files (final_state (loop_body example_convert example_trainer
        example_config 3 0 2 (initial_state example_state_dict Map.empty))))
        ''checkpoint/0000_acc1.0000_seed0040_stl10_resnet18.pth''
      = Some (save_state example_convert (example_trainer 0 2 example_state_dict))
   \<and> final_halt (finetune example_convert example_trainer example_config 3
        example_state_dict Map.empty) = None
   \<and> train_steps (trace (final_state (finetune example_convert example_trainer
        example_config 3 example_state_dict Map.empty))) = all_batches 3
   \<and> (\<exists>post'. trace (final_state (finetune example_convert example_trainer
        example_config 3 example_state_dict Map.empty))
        = [TrainStep 0 0, TrainStep 0 1] @ TrainStep 0 2
            # Saved ''checkpoint/0000_acc1.0000_seed0040_stl10_resnet18.pth'' # post')
   \<and> read_file (files (final_state (finetune example_convert example_trainer
        example_config 3 example_state_dict Map.empty)))
        ''checkpoint/0000_acc1.0000_seed0040_stl10_resnet18.pth'' \<noteq> None"
proof -
  let ?r = "finetune example_convert example_trainer example_config 3
      example_state_dict Map.empty"
  let ?s0 = "initial_state example_state_dict (Map.empty :: nat state_dict filesystem)"
  let ?p0 = "''checkpoint/0000_acc1.0000_seed0040_stl10_resnet18.pth''"
  let ?rest = "concat (map (\<lambda>j. [TrainStep j 0, TrainStep j 1, TrainStep j 2,
                           Saved (checkpoint_path (int j) 1 example_config)])
         [1, 2, 3, 4, 5])"
  note inst = saves_follow_batches [of example_convert example_trainer example_config 3
      example_state_dict Map.empty, unfolded Let_def]
  from inst have a: "\<And>j b st. b \<le> 1 \<Longrightarrow>
      trace (final_state (loop_body example_convert example_trainer example_config 3 j b st))
        = trace st @ [TrainStep j b]"
    by blast
  have first: "trace (final_state (loop_body example_convert example_trainer example_config
      3 0 0 ?s0)) = [TrainStep 0 0]"
    using a [where b = 0 and j = 0 and st = ?s0] by (simp add: initial_state_def)
  from inst have b: "\<And>j b st. 1 < b \<Longrightarrow>
      (case save_checkpoint example_convert (example_trainer j b (model_sd st)) (ckpt_num st)
              1 example_config (files st) of
         Inl e \<Rightarrow>
           loop_body example_convert example_trainer example_config 3 j b st
             = Inl (Raised e, st\<lparr>model_sd := example_trainer j b (model_sd st),
                                  trace := trace st @ [TrainStep j b]\<rparr>)
       | Inr fs' \<Rightarrow>
           trace (final_state (loop_body example_convert example_trainer example_config
               3 j b st))
             = trace st @ [TrainStep j b, Saved (checkpoint_path (ckpt_num st) 1 example_config)]
           \<and> files (final_state (loop_body example_convert example_trainer example_config
               3 j b st)) = fs'
           \<and> ckpt_num (final_state (loop_body example_convert example_trainer example_config
               3 j b st)) = ckpt_num st + 1
           \<and> read_file fs' (checkpoint_path (ckpt_num st) 1 example_config)
               = Some (save_state example_convert (example_trainer j b (model_sd st))))"
    by blast
  have third: "read_file (files (final_state (loop_body example_convert example_trainer
        example_config 3 0 2 ?s0))) ?p0
      = Some (save_state example_convert (example_trainer 0 2 example_state_dict))"
    using b [where b = 2 and j = 0 and st = ?s0]
    by (simp add: initial_state_def example_save example_path_0)
  have halt: "final_halt ?r = None" by (rule example_run_halt)
  from inst halt have all: "train_steps (trace (final_state ?r)) = all_batches 3"
    by blast
  have tr: "trace (final_state ?r)
      = [TrainStep 0 0, TrainStep 0 1] @ TrainStep 0 2 # Saved ?p0 # ?rest"
    by (simp add: example_run_trace)
  from inst have c: "\<And>pre j b post. trace (final_state ?r) = pre @ TrainStep j b # post
      \<Longrightarrow> 1 < b
      \<Longrightarrow> (\<exists>p post'. post = Saved p # post' \<and> read_file (files (final_state ?r)) p \<noteq> None)
          \<or> (post = [] \<and> (\<exists>e. final_halt ?r = Some (Raised e)))"
    by blast
  have "(1::nat) < 2" by simp
  from c [OF tr this] have rd: "read_file (files (final_state ?r)) ?p0 \<noteq> None"
    by simp
  from tr have ex: "\<exists>post'. trace (final_state ?r)
      = [TrainStep 0 0, TrainStep 0 1] @ TrainStep 0 2 # Saved ?p0 # post'"
    by blast
  from first third halt all ex rd show ?thesis by simp
qed

subsection \<open>The number of passes\<close>

lemma loop_body_continues:
  assumes "CHR ''/'' \<notin> set (tag cfg)" "0 \<le> seed cfg"
    and "0 \<le> ckpt_num st" "of_int (ckpt_num st) + 1 < total_save_number cfg"
  shows "\<exists>st'. loop_body convert train_step cfg tb j b st = Inr st'
           \<and> 0 \<le> ckpt_num st' \<and> ckpt_num st' \<le> ckpt_num st + 1"
proof (cases "1 < b")
  case False
  with assms show ?thesis
    by (simp add: loop_body_unfold quota_check_def)
next
  case True
  note save = save_checkpoint_run [OF assms(1,2,3), of convert "train_step j b (model_sd st)"
      "files st"]
  with True assms show ?thesis
    by (simp add: loop_body_unfold quota_check_def)
qed

lemma inner_loop_continues:
  assumes "CHR ''/'' \<notin> set (tag cfg)" "0 \<le> seed cfg"
    and "0 \<le> ckpt_num st"
    and "of_int (ckpt_num st) + of_nat (length bs) < total_save_number cfg"
  shows "\<exists>st'. inner_loop convert train_step cfg tb j bs st = Inr st'"
  using assms(3,4)
proof (induction bs arbitrary: st)
  case Nil
  then show ?case by simp
next
  case (Cons b bs)
  from Cons.prems have "of_int (ckpt_num st) + 1 < total_save_number cfg" by simp
  from loop_body_continues [OF assms(1,2) Cons.prems(1) this] obtain st' where
    body: "loop_body convert train_step cfg tb j b st = Inr st'"
    and ck: "0 \<le> ckpt_num st'" "ckpt_num st' \<le> ckpt_num st + 1"
    by blast
  from ck(2) have "(of_int (ckpt_num st') :: rat) \<le> of_int (ckpt_num st) + 1"
    by (metis of_int_1 of_int_add of_int_le_iff)
  with Cons.prems have "of_int (ckpt_num st') + of_nat (length bs) < total_save_number cfg"
    by simp
  from Cons.IH [OF ck(1) this] body show ?case by simp
qed

lemma event_kept_body:
  assumes "e \<in> set (trace st)"
  shows "case loop_body convert train_step cfg tb j b st of
           Inl hs \<Rightarrow> e \<in> set (trace (snd hs)) | Inr st' \<Rightarrow> e \<in> set (trace st')"
  using assms
  by (auto simp: loop_body_unfold quota_check_def split: sum.splits)

lemma event_kept_inner:
  assumes "e \<in> set (trace st)"
  shows "e \<in> set (trace (final_state (inner_loop convert train_step cfg tb j bs st)))"
  using inner_loop_rule [where R = "\<lambda>st. e \<in> set (trace st)"
      and H = "\<lambda>hs. e \<in> set (trace (snd hs))", OF event_kept_body assms,
      of convert train_step cfg tb j bs]
  by (auto simp: final_state_def split: sum.splits)

lemma event_kept_outer:
  assumes "e \<in> set (trace st)"
  shows "e \<in> set (trace (final_state (outer_loop convert train_step cfg tb js st)))"
  using outer_loop_rule [where R = "\<lambda>st. e \<in> set (trace st)"
      and H = "\<lambda>hs. e \<in> set (trace (snd hs))", OF event_kept_body assms,
      of convert train_step cfg tb js]
  by (auto simp: final_state_def split: sum.splits)

lemma pass_starts:
  assumes "0 < tb"
  shows "TrainStep j 0 \<in> set (trace (final_state
           (outer_loop convert train_step cfg tb (j # js) st)))"
proof -
  from assms have upt: "[0..<tb] = 0 # [1..<tb]" by (simp add: upt_conv_Cons)
  let ?body = "loop_body convert train_step cfg tb j 0 st"
  have first: "case ?body of Inl hs \<Rightarrow> TrainStep j 0 \<in> set (trace (snd hs))
                | Inr st' \<Rightarrow> TrainStep j 0 \<in> set (trace st')"
    by (simp add: loop_body_unfold quota_check_def)
  show ?thesis
  proof (cases ?body)
    case (Inl hs)
    with first show ?thesis
      by (simp add: upt final_state_def case_prod_beta)
  next
    case (Inr st')
    with first have mem: "TrainStep j 0 \<in> set (trace st')" by simp
    let ?inner = "inner_loop convert train_step cfg tb j [1..<tb] st'"
    have inner: "TrainStep j 0 \<in> set (trace (final_state ?inner))"
      by (rule event_kept_inner [OF mem])
    show ?thesis
    proof (cases ?inner)
      case (Inl hs)
      with inner Inr show ?thesis by (simp add: upt final_state_def)
    next
      case (Inr st'')
      with inner have "TrainStep j 0 \<in> set (trace st'')" by (simp add: final_state_def)
      from event_kept_outer [OF this] Inr \<open>?body = Inr st'\<close> show ?thesis
        by (simp add: upt)
    qed
  qed
qed

lemma second_pass:
  assumes "CHR ''/'' \<notin> set (tag cfg)" "0 \<le> seed cfg" "seed cfg \<le> 2 ^ 32 - 1"
    and "0 < tb" "of_nat tb < total_save_number cfg"
  shows "TrainStep 1 0 \<in> set (trace (final_state (finetune convert train_step cfg tb sd fs)))"
proof -
  have run: "finetune convert train_step cfg tb sd fs =
      outer_loop convert train_step cfg tb [0, 1, 2, 3, 4, 5] (initial_state sd fs)"
    using assms(2,3) by (simp add: finetune_good_seed upt_6)
  have "of_int (ckpt_num (initial_state sd fs)) + of_nat (length [0..<tb])
      < total_save_number cfg"
    using assms(5) by (simp add: initial_state_def)
  moreover have "0 \<le> ckpt_num (initial_state sd fs)"
    by (simp add: initial_state_def)
  ultimately obtain st' where
    "inner_loop convert train_step cfg tb 0 [0..<tb] (initial_state sd fs) = Inr st'"
    using inner_loop_continues [OF assms(1,2), of "initial_state sd fs" "[0..<tb]"
        convert train_step tb 0]
    by blast
  then have "outer_loop convert train_step cfg tb [0, 1, 2, 3, 4, 5] (initial_state sd fs)
      = outer_loop convert train_step cfg tb [1, 2, 3, 4, 5] st'"
    by simp
  with pass_starts [OF assms(4), of 1 convert train_step cfg "[2, 3, 4, 5]" st'] run
  show ?thesis by simp
qed

text \<open>
  C5 does not hold of the code. With the default configuration (\<open>epochs = 1\<close>, a
  quota of 300) and the 79 batches of the training set, the first pass makes 77 saves
  and the quota does not stop it; the loop \<^verbatim>\<open>for j in range(6)\<close> then goes on to a second
  pass: the run trains on batch 0 of pass \<open>j = 1\<close>.
\<close>

theorem default_run_second_pass:
  "epochs (get_config ''stl10_resnet18'' []) = 1
   \<and> TrainStep 1 0 \<in> set (trace (final_state
        (finetune convert train_step (get_config ''stl10_resnet18'' []) 79 sd fs)))"
proof -
  have "TrainStep 1 0 \<in> set (trace (final_state
        (finetune convert train_step (get_config ''stl10_resnet18'' []) 79 sd fs)))"
    by (rule second_pass) (simp_all add: get_config_def)
  then show ?thesis by (simp add: get_config_def)
qed

section \<open>get_optimizer_and_scheduler\<close>

lemma mark_trainable_eq:
  "mark_trainable params acc =
     (map (\<lambda>(name, p). (name, p\<lparr>requires_grad := any_norm_in name\<rparr>)) params,
      acc @ filter any_norm_in (map fst params))"
  by (induction params arbitrary: acc) auto

lemma optimizer_step_fst: "map fst (optimizer_step update opt ps) = map fst ps"
  by (induction ps) (auto simp: optimizer_step_def)

lemma optimizer_step_nth:
  "i < length ps \<Longrightarrow> fst (ps ! i) \<notin> set (opt_params opt) \<Longrightarrow>
     optimizer_step update opt ps ! i = ps ! i"
  by (simp add: optimizer_step_def case_prod_beta)

lemma optimizer_steps_nth:
  assumes "i < length ps" "fst (ps ! i) \<notin> set (opt_params opt)"
  shows "fold (\<lambda>update. optimizer_step update opt) updates ps ! i = ps ! i"
  using assms
proof (induction updates arbitrary: ps)
  case Nil
  then show ?case by simp
next
  case (Cons u us)
  let ?ps = "optimizer_step u opt ps"
  have len: "i < length ?ps"
    using Cons.prems(1) by (simp add: optimizer_step_def)
  have same: "?ps ! i = ps ! i"
    by (rule optimizer_step_nth [OF Cons.prems])
  with Cons.prems have "fst (?ps ! i) \<notin> set (opt_params opt)" by simp
  from Cons.IH [OF len this] same show ?case by simp
qed

text \<open>
  C8. \<open>get_optimizer_and_scheduler\<close> leaves the parameters' names and tensors as they
  are, sets \<open>requires_grad\<close> to true on the parameters whose name contains one of the
  four names and to false on every other one, and gives the optimizer exactly the
  parameters whose name contains one of the four names. So any number of optimizer
  steps, whatever they compute, leave every other parameter unchanged.
\<close>

theorem only_last_norms_trained:
  assumes "get_optimizer_and_scheduler params cfg total_batches = (params', opt, sched)"
  shows "map fst params' = map fst params
       \<and> (\<forall>i<length params.
            data (snd (params' ! i)) = data (snd (params ! i))
            \<and> (requires_grad (snd (params' ! i)) \<longleftrightarrow>
                 (\<exists>norm \<in> {''layer4.1.bn1.weight'', ''layer4.1.bn1.bias'',
                             ''layer4.1.bn2.weight'', ''layer4.1.bn2.bias''}.
                     sublist norm (fst (params ! i)))))
       \<and> opt_params opt =
           filter (\<lambda>name. \<exists>norm \<in> {''layer4.1.bn1.weight'', ''layer4.1.bn1.bias'',
                                    ''layer4.1.bn2.weight'', ''layer4.1.bn2.bias''}.
                            sublist norm name) (map fst params)
       \<and> (\<forall>updates. \<forall>i<length params.
            \<not> (\<exists>norm \<in> {''layer4.1.bn1.weight'', ''layer4.1.bn1.bias'',
                          ''layer4.1.bn2.weight'', ''layer4.1.bn2.bias''}.
                  sublist norm (fst (params ! i)))
            \<longrightarrow> fold (\<lambda>update. optimizer_step update opt) updates params' ! i = params' ! i)"
proof -
  let ?P = "\<lambda>name. \<exists>norm \<in> {''layer4.1.bn1.weight'', ''layer4.1.bn1.bias'',
                             ''layer4.1.bn2.weight'', ''layer4.1.bn2.bias''}. sublist norm name"
  have P: "any_norm_in = ?P"
    by (rule ext) (simp add: any_norm_in_iff names_last_norm_def)
  from assms have params': "params' = map (\<lambda>(name, p). (name, p\<lparr>requires_grad := ?P name\<rparr>)) params"
    and opt: "opt_params opt = filter ?P (map fst params)"
    by (auto simp: get_optimizer_and_scheduler_def mark_trainable_eq P)
  have names: "map fst params' = map fst params"
    unfolding params' by (induction params) auto
  have entry: "params' ! i = (fst (params ! i), (snd (params ! i))\<lparr>requires_grad := ?P (fst (params ! i))\<rparr>)"
    if "i < length params" for i
    using that unfolding params' by (simp add: case_prod_beta)
  have flags: "\<forall>i<length params.
      data (snd (params' ! i)) = data (snd (params ! i))
      \<and> (requires_grad (snd (params' ! i)) \<longleftrightarrow> ?P (fst (params ! i)))"
    by (simp add: entry)
  have frame: "fold (\<lambda>update. optimizer_step update opt) updates params' ! i = params' ! i"
    if "i < length params" "\<not> ?P (fst (params ! i))" for updates i
  proof (rule optimizer_steps_nth)
    show "i < length params'" using that(1) by (simp add: params')
    show "fst (params' ! i) \<notin> set (opt_params opt)"
      using that by (simp add: entry opt)
  qed
  from names flags opt frame show ?thesis by blast
qed

lemma example_get_optimizer:
  "get_optimizer_and_scheduler example_parameters example_config 79
     = (example_marked_parameters, example_optimizer, example_scheduler)"
  by (simp add: get_optimizer_and_scheduler_def example_parameters_def example_config_def
      get_config_def any_norm_in_def last_two_norms_def example_marked_parameters_def
      example_optimizer_def example_scheduler_def)

lemma example_not_last_norm:
  "\<not> (\<exists>norm \<in> {''layer4.1.bn1.weight'', ''layer4.1.bn1.bias'',
                  ''layer4.1.bn2.weight'', ''layer4.1.bn2.bias''}.
          sublist norm (fst (example_parameters ! 1)))"
proof -
  have "\<not> any_norm_in ''fc.weight''"
    by (simp add: any_norm_in_def last_two_norms_def)
  moreover have "fst (example_parameters ! 1) = ''fc.weight''"
    by (simp add: example_parameters_def)
  ultimately show ?thesis
    unfolding any_norm_in_iff names_last_norm_def by simp
qed

theorem only_last_norms_trained_witness:
  "get_optimizer_and_scheduler example_parameters example_config 79
     = (example_marked_parameters, example_optimizer, example_scheduler)
   \<and> 1 < length example_parameters
   \<and> \<not> (\<exists>norm \<in> {''layer4.1.bn1.weight'', ''layer4.1.bn1.bias'',
                    ''layer4.1.bn2.weight'', ''layer4.1.bn2.bias''}.
            sublist norm (fst (example_parameters ! 1)))
   \<and> fold (\<lambda>update. optimizer_step update example_optimizer) example_updates
        example_marked_parameters ! 1
     = example_marked_parameters ! 1"
proof -
  have len: "1 < length example_parameters"
    by (simp add: example_parameters_def)
  note inst = only_last_norms_trained [OF example_get_optimizer]
  from inst have frame: "\<forall>updates. \<forall>i<length example_parameters.
      \<not> (\<exists>norm \<in> {''layer4.1.bn1.weight'', ''layer4.1.bn1.bias'',
                    ''layer4.1.bn2.weight'', ''layer4.1.bn2.bias''}.
            sublist norm (fst (example_parameters ! i)))
      \<longrightarrow> fold (\<lambda>update. optimizer_step update example_optimizer) updates
            example_marked_parameters ! i
          = example_marked_parameters ! i"
    by (elim conjE)
  from frame [rule_format, OF len example_not_last_norm, of example_updates]
  show ?thesis
    by (intro conjI example_get_optimizer len example_not_last_norm)
qed

section \<open>reselect.py\<close>





















end
